theory Spec2Isabelle
  imports Complex_Main "HOL-Library.Sublist" "HOL-Library.AList"
begin

section \<open>Configuration and error values\<close>

text \<open>
  The backend (\<open>server.js\<close>) reads its knobs from the environment with \<open>parseInt\<close>, so
  they are integers of either sign. (\<open>parseInt\<close> of a non-numeric string is \<open>NaN\<close>, which
  \<open>int\<close> does not represent.) The two Qdrant settings are strings that may be absent.
\<close>

record config =
  TOP_K :: int
  LLM_RETRIES :: int
  LLM_RETRY_MS :: int
  QDRANT_URL :: "string option"
  QDRANT_API_KEY :: "string option"

text \<open>
  A rejected promise carries an error object. The code reads three things from it:
  \<open>e.message\<close>, \<open>err?.response?.status\<close> and \<open>err?.response?.data?.error?.code\<close>.
  The last two are compared with \<open>===\<close> against the numbers 429 and 503, so \<open>None\<close> stands
  for a value that is absent or is not an integer number.
\<close>

record js_error =
  err_message :: string
  resp_status :: "int option"
  resp_code :: "int option"

text \<open>
  What \<open>askGemini\<close> can throw: the error it caught from the provider (\<open>throw err\<close> inside
  the loop), or the fresh \<open>new Error('llm_unavailable')\<close> after the loop. The constructor
  records the throw site.
\<close>

datatype thrown = Rethrown js_error | Llm_unavailable

text \<open>The error object that the caller's \<open>catch\<close> receives.\<close>

fun thrown_error :: "thrown \<Rightarrow> js_error" where
  "thrown_error (Rethrown e) = e"
| "thrown_error Llm_unavailable =
     \<lparr>err_message = ''llm_unavailable'', resp_status = None, resp_code = None\<rparr>"

section \<open>The generation client\<close>

text \<open>
  The provider is outside the program: \<open>provider prompt n\<close> is the outcome of the
  \<open>n\<close>-th HTTP call (counted from 0) made for \<open>prompt\<close>: either the error
  \<open>axios.post\<close> rejects with, or the value of
  \<open>data?.candidates?.[0]?.content?.parts?.[0]?.text\<close>, which is \<open>None\<close> when a link of
  the chain is missing.
\<close>

type_synonym provider = "string \<Rightarrow> nat \<Rightarrow> js_error + string option"

definition askGeminiRaw :: "provider \<Rightarrow> string \<Rightarrow> nat \<Rightarrow> js_error + string" where
  "askGeminiRaw llm prompt n =
     (case llm prompt n of
        Inl err \<Rightarrow> Inl err
      | Inr text \<Rightarrow> Inr (case text of None \<Rightarrow> [] | Some s \<Rightarrow> if s = [] then [] else s))"

text \<open>
  The effects of one \<open>askGemini\<close> call: how many provider calls were made, and the
  arguments passed to \<open>sleep\<close>, in order. \<open>retryable\<close> is the condition of the \<open>if\<close> in
  the \<open>catch\<close> block.
\<close>

record trace =
  calls :: nat
  sleeps :: "int list"

definition retryable :: "js_error \<Rightarrow> bool" where
  "retryable err =
     (let status = resp_status err; code = resp_code err
      in status = Some 429 \<or> status = Some 503 \<or> code = Some 429 \<or> code = Some 503)"

text \<open>
  The \<open>for\<close> loop of \<open>askGemini\<close>, with \<open>i\<close> and \<open>delay\<close> as arguments.
  \<open>rnd k\<close> is the \<open>k\<close>-th value returned by \<open>Math.random()\<close>; one is drawn per sleep.
\<close>

function askGemini_loop ::
  "config \<Rightarrow> provider \<Rightarrow> (nat \<Rightarrow> real) \<Rightarrow> string \<Rightarrow> int \<Rightarrow> int \<Rightarrow> trace
     \<Rightarrow> (thrown + string) \<times> trace" where
  "askGemini_loop cfg llm rnd prompt i delay tr =
     (if i < LLM_RETRIES cfg then
        (case askGeminiRaw llm prompt (calls tr) of
           Inr text \<Rightarrow> (Inr text, tr\<lparr>calls := Suc (calls tr)\<rparr>)
         | Inl err \<Rightarrow>
             (let tr1 = tr\<lparr>calls := Suc (calls tr)\<rparr> in
              if retryable err then
                (if i < LLM_RETRIES cfg - 1 then
                   askGemini_loop cfg llm rnd prompt (i + 1) (delay * 2)
                     (tr1\<lparr>sleeps := sleeps tr1 @
                        [delay + \<lfloor>rnd (length (sleeps tr1)) * 250\<rfloor>]\<rparr>)
                 else (Inl (Rethrown err), tr1))
              else (Inl (Rethrown err), tr1)))
      else (Inl Llm_unavailable, tr))"
  by pat_completeness auto
termination
  by (relation "measure (\<lambda>(cfg, llm, rnd, prompt, i, delay, tr). nat (LLM_RETRIES cfg - i))") auto

declare askGemini_loop.simps [simp del]

definition askGemini ::
  "config \<Rightarrow> provider \<Rightarrow> (nat \<Rightarrow> real) \<Rightarrow> string \<Rightarrow> (thrown + string) \<times> trace" where
  "askGemini cfg llm rnd prompt =
     askGemini_loop cfg llm rnd prompt 0 (LLM_RETRY_MS cfg) \<lparr>calls = 0, sleeps = []\<rparr>"

section \<open>Strings and arrays of the runtime\<close>

text \<open>
  Strings are byte lists here, so the three non-ASCII characters of the source's
  literals are written as their UTF-8 bytes. \<open>tmpl\<close> is what a template literal
  \<open>`${x}`\<close> prints for a string that may be \<open>undefined\<close>; \<open>dec\<close> is what it prints for a
  non-negative integer such as \<open>i + 1\<close>.
\<close>

definition nl :: string where
  "nl = [CHR 0x0A]"

definition bullet :: string where
  "bullet = [CHR 0xE2, CHR 0x80, CHR 0xA2]"

definition ldquo :: string where
  "ldquo = [CHR 0xE2, CHR 0x80, CHR 0x9C]"

definition rdquo :: string where
  "rdquo = [CHR 0xE2, CHR 0x80, CHR 0x9D]"

definition tmpl :: "string option \<Rightarrow> string" where
  "tmpl v = (case v of None \<Rightarrow> ''undefined'' | Some s \<Rightarrow> s)"

fun dec :: "nat \<Rightarrow> string" where
  "dec n = (if n < 10 then [''0123456789'' ! n]
            else dec (n div 10) @ [''0123456789'' ! (n mod 10)])"

declare dec.simps [simp del]

text \<open>Reading a decimal numeral back, to tell that \<open>dec\<close> loses nothing.\<close>

definition digit_value :: "char \<Rightarrow> nat" where
  "digit_value c = of_char c - 48"

definition undec :: "string \<Rightarrow> nat" where
  "undec s = foldl (\<lambda>a c. 10 * a + digit_value c) 0 s"

text \<open>\<open>Array.prototype.join\<close>, \<open>map\<close> with the index as second argument, and \<open>slice\<close>.\<close>

fun join :: "string \<Rightarrow> string list \<Rightarrow> string" where
  "join sep [] = []"
| "join sep [x] = x"
| "join sep (x # y # ys) = x @ sep @ join sep (y # ys)"

definition mapi :: "('a \<Rightarrow> nat \<Rightarrow> 'b) \<Rightarrow> 'a list \<Rightarrow> 'b list" where
  "mapi f xs = map (\<lambda>(i, x). f x i) (enumerate 0 xs)"

definition js_slice :: "'a list \<Rightarrow> int \<Rightarrow> int \<Rightarrow> 'a list" where
  "js_slice xs s e =
     (let n = int (length xs);
          k = (if s < 0 then max (n + s) 0 else min s n);
          final = (if e < 0 then max (n + e) 0 else min e n)
      in take (nat (final - k)) (drop (nat k) xs))"

text \<open>
  \<open>String.prototype.trim\<close> strips white space and line terminators from both ends:
  U+0009 to U+000D, U+0020, U+00A0, U+1680, U+2000 to U+200A, U+2028, U+2029, U+202F,
  U+205F, U+3000 and U+FEFF. \<open>white_space\<close> lists their UTF-8 encodings. \<open>strip ws s\<close>
  removes from the front of \<open>s\<close>, for as long as there is one, a sequence listed in \<open>ws\<close>.
\<close>

definition white_space :: "string list" where
  "white_space =
     [CHR 0x09] # [CHR 0x0A] # [CHR 0x0B] # [CHR 0x0C] # [CHR 0x0D] # [CHR 0x20] #
     [CHR 0xC2, CHR 0xA0] # [CHR 0xE1, CHR 0x9A, CHR 0x80] #
     [CHR 0xE2, CHR 0x80, CHR 0x80] # [CHR 0xE2, CHR 0x80, CHR 0x81] #
     [CHR 0xE2, CHR 0x80, CHR 0x82] # [CHR 0xE2, CHR 0x80, CHR 0x83] #
     [CHR 0xE2, CHR 0x80, CHR 0x84] # [CHR 0xE2, CHR 0x80, CHR 0x85] #
     [CHR 0xE2, CHR 0x80, CHR 0x86] # [CHR 0xE2, CHR 0x80, CHR 0x87] #
     [CHR 0xE2, CHR 0x80, CHR 0x88] # [CHR 0xE2, CHR 0x80, CHR 0x89] #
     [CHR 0xE2, CHR 0x80, CHR 0x8A] # [CHR 0xE2, CHR 0x80, CHR 0xA8] #
     [CHR 0xE2, CHR 0x80, CHR 0xA9] # [CHR 0xE2, CHR 0x80, CHR 0xAF] #
     [CHR 0xE2, CHR 0x81, CHR 0x9F] # [CHR 0xE3, CHR 0x80, CHR 0x80] #
     [CHR 0xEF, CHR 0xBB, CHR 0xBF] # []"

function strip :: "string list \<Rightarrow> string \<Rightarrow> string" where
  "strip ws s =
     (case find (\<lambda>w. w \<noteq> [] \<and> prefix w s) ws of
        None \<Rightarrow> s
      | Some w \<Rightarrow> strip ws (drop (length w) s))"
  by pat_completeness auto
termination
proof (relation "measure (\<lambda>(ws, s). length s)")
  show "wf (measure (\<lambda>(ws, s). length s))" by simp
next
  fix ws :: "string list" and s w :: string
  assume "find (\<lambda>w. w \<noteq> [] \<and> prefix w s) ws = Some w"
  then have "w \<noteq> []" "prefix w s" by (auto simp: find_Some_iff)
  then have "s \<noteq> []" by auto
  with \<open>w \<noteq> []\<close> show "((ws, drop (length w) s), (ws, s)) \<in> measure (\<lambda>(ws, s). length s)"
    by simp
qed

declare strip.simps [simp del]

definition trimStart :: "string \<Rightarrow> string" where
  "trimStart s = strip white_space s"

definition trimEnd :: "string \<Rightarrow> string" where
  "trimEnd s = rev (strip (map rev white_space) (rev s))"

definition js_trim :: "string \<Rightarrow> string" where
  "js_trim s = trimEnd (trimStart s)"

section \<open>Passages, prompt and fallback\<close>

text \<open>
  A passage as \<open>qdrantSearch\<close> builds it: \<open>r.payload?.title\<close> and its siblings are
  \<open>undefined\<close> (\<open>None\<close>) when the payload lacks them. \<open>context_block\<close> and
  \<open>fallback_line\<close> are the arrow functions mapped over the passages in \<open>buildPrompt\<close> and
  \<open>busyFallback\<close>; \<open>sources_of\<close> is the \<open>passages.map\<close> of the chat route.
\<close>

record passage =
  score :: real
  title :: "string option"
  url :: "string option"
  chunk :: "string option"

record source =
  source_id :: nat
  source_title :: "string option"
  source_url :: "string option"

definition context_block :: "passage \<Rightarrow> nat \<Rightarrow> string" where
  "context_block p i =
     ''# Source '' @ dec (i + 1) @ '' ('' @ tmpl (title p) @ '')'' @ nl @
     tmpl (chunk p) @ nl @ ''URL: '' @ tmpl (url p)"

definition buildPrompt :: "string \<Rightarrow> passage list \<Rightarrow> string" where
  "buildPrompt query passages =
     (let ctx = join (nl @ nl) (mapi context_block passages)
      in ''You are a news assistant. Use ONLY the context below. If the answer is unknown, say you are unsure.''
         @ nl @ nl @ ''## Context'' @ nl @ ctx @ nl @ nl @ ''## Task'' @ nl @
         ''Question: '' @ query @ nl @
         ''Answer clearly with citations like [S1], [S2] referring to the numbered sources.'')"

definition fallback_line :: "passage \<Rightarrow> nat \<Rightarrow> string" where
  "fallback_line p i = bullet @ '' [S'' @ dec (i + 1) @ ''] '' @ tmpl (title p)"

definition busyFallback :: "string \<Rightarrow> passage list \<Rightarrow> string" where
  "busyFallback query passages =
     (let list = join nl (mapi fallback_line (js_slice passages 0 5))
      in ''The model is busy right now. Here are relevant sources for '' @ ldquo @ query @
         rdquo @ '':'' @ nl @ nl @ list)"

definition sources_of :: "passage list \<Rightarrow> source list" where
  "sources_of passages =
     mapi (\<lambda>p i. \<lparr>source_id = i + 1, source_title = title p, source_url = url p\<rparr>) passages"

section \<open>The session store\<close>

text \<open>
  A stored message is a JavaScript object: its properties in insertion order. Spreading
  \<open>...extra\<close> into an object literal overwrites a property that is already there, in
  place, and appends the others.
\<close>

datatype jsv = JStr string | JNum int | JArr "jsv list" | JObj "(string \<times> jsv) list"

type_synonym obj = "(string \<times> jsv) list"

definition spread :: "obj \<Rightarrow> obj \<Rightarrow> obj" where
  "spread base extra = foldl (\<lambda>acc (k, v). AList.update k v acc) base extra"

text \<open>
  \<open>JSON.stringify\<close> and \<open>JSON.parse\<close> belong to the runtime, not to the repository: they
  are parameters, and \<open>'t\<close> is the type of serialised text. \<open>parse\<close> may throw.
\<close>

record 't codec =
  stringify :: "obj \<Rightarrow> 't"
  parse :: "'t \<Rightarrow> js_error + obj"

text \<open>
  What \<open>lrange\<close> hands back for one entry: the stored text, or (the Upstash client
  deserialises on its own) an object already.
\<close>

datatype 't item = Text 't | Object obj

text \<open>
  The \<open>redis\<close> facade: the four commands the session helpers use. Each returns its
  result or the error it rejects with, and the store afterwards.
\<close>

record ('s, 't) backend =
  rpush :: "string \<Rightarrow> 't \<Rightarrow> 's \<Rightarrow> (js_error + nat) \<times> 's"
  lrange :: "string \<Rightarrow> int \<Rightarrow> int \<Rightarrow> 's \<Rightarrow> (js_error + 't item list) \<times> 's"
  expire :: "string \<Rightarrow> int \<Rightarrow> 's \<Rightarrow> (js_error + bool) \<times> 's"
  del :: "string \<Rightarrow> 's \<Rightarrow> (js_error + nat) \<times> 's"

text \<open>The in-memory fallback: \<open>mem\<close> is a \<open>Map\<close> from keys to arrays.\<close>

type_synonym 't mem = "string \<rightharpoonup> 't list"

text \<open>\<open>mem.get(k) || []\<close>: an array is never falsy, so only a missing key gives \<open>[]\<close>.\<close>

definition stored_array :: "'t mem \<Rightarrow> string \<Rightarrow> 't list" where
  "stored_array mem k = (case mem k of None \<Rightarrow> [] | Some a \<Rightarrow> a)"

definition mem_rpush :: "string \<Rightarrow> 't \<Rightarrow> 't mem \<Rightarrow> (js_error + nat) \<times> 't mem" where
  "mem_rpush k v mem =
     (let arr = stored_array mem k;
          arr' = arr @ [v]
      in (Inr (length arr'), mem(k \<mapsto> arr')))"

definition mem_lrange ::
  "string \<Rightarrow> int \<Rightarrow> int \<Rightarrow> 't mem \<Rightarrow> (js_error + 't item list) \<times> 't mem" where
  "mem_lrange k s e mem =
     (let arr = stored_array mem k;
          end = (if e = - 1 then int (length arr) else e + 1)
      in (Inr (map Text (js_slice arr s end)), mem))"

definition mem_expire :: "string \<Rightarrow> int \<Rightarrow> 't mem \<Rightarrow> (js_error + bool) \<times> 't mem" where
  "mem_expire k sec mem = (Inr True, mem)"

definition mem_del :: "string \<Rightarrow> 't mem \<Rightarrow> (js_error + nat) \<times> 't mem" where
  "mem_del k mem = (Inr 1, mem(k := None))"

definition mem_backend :: "('t mem, 't) backend" where
  "mem_backend = \<lparr>rpush = mem_rpush, lrange = mem_lrange, expire = mem_expire, del = mem_del\<rparr>"

subsection \<open>Chat history helpers\<close>

definition key :: "string \<Rightarrow> string" where
  "key id' = ''session:'' @ id' @ '':messages''"

definition TTL_SECONDS :: int where
  "TTL_SECONDS = 60 * 60 * 24 * 7"

text \<open>
  \<open>now\<close> is the value \<open>Date.now()\<close> returns inside the call; \<open>message_object\<close> is the
  object literal that \<open>pushMsg\<close> serialises.
\<close>

definition message_object :: "string \<Rightarrow> string \<Rightarrow> int \<Rightarrow> obj \<Rightarrow> obj" where
  "message_object role content now extra =
     spread [(''role'', JStr role), (''content'', JStr content), (''ts'', JNum now)] extra"

definition pushMsg ::
  "('s, 't) backend \<Rightarrow> 't codec \<Rightarrow> int \<Rightarrow> string \<Rightarrow> string \<Rightarrow> string \<Rightarrow> obj \<Rightarrow> 's
     \<Rightarrow> (js_error + unit) \<times> 's" where
  "pushMsg be cd now id' role content extra st =
     (let msg = stringify cd (message_object role content now extra) in
      case rpush be (key id') msg st of
        (Inl e, st1) \<Rightarrow> (Inl e, st1)
      | (Inr _, st1) \<Rightarrow>
          (case expire be (key id') TTL_SECONDS st1 of
             (Inl e, st2) \<Rightarrow> (Inl e, st2)
           | (Inr _, st2) \<Rightarrow> (Inr (), st2)))"

fun parse_items :: "'t codec \<Rightarrow> 't item list \<Rightarrow> js_error + obj list" where
  "parse_items cd [] = Inr []"
| "parse_items cd (x # xs) =
     (case (case x of Text t \<Rightarrow> parse cd t | Object ob \<Rightarrow> Inr ob) of
        Inl e \<Rightarrow> Inl e
      | Inr m \<Rightarrow> (case parse_items cd xs of Inl e \<Rightarrow> Inl e | Inr ms \<Rightarrow> Inr (m # ms)))"

definition getHistory ::
  "('s, 't) backend \<Rightarrow> 't codec \<Rightarrow> string \<Rightarrow> 's \<Rightarrow> (js_error + obj list) \<times> 's" where
  "getHistory be cd id' st =
     (case lrange be (key id') 0 (- 1) st of
        (Inl e, st1) \<Rightarrow> (Inl e, st1)
      | (Inr arr, st1) \<Rightarrow> (parse_items cd arr, st1))"

definition resetSession :: "('s, 't) backend \<Rightarrow> string \<Rightarrow> 's \<Rightarrow> (js_error + unit) \<times> 's" where
  "resetSession be id' st =
     (case del be (key id') st of
        (Inl e, st1) \<Rightarrow> (Inl e, st1)
      | (Inr _, st1) \<Rightarrow> (Inr (), st1))"

section \<open>The chat route\<close>

text \<open>
  What one request sees of the outside world: the clock (\<open>clock k\<close> is the \<open>k\<close>-th reading
  of \<open>Date.now()\<close>), the embedding and vector search behind \<open>qdrantSearch\<close> (with the
  passages as its final \<open>map\<close> shapes them), the generation provider, and \<open>Math.random\<close>.
\<close>

record env =
  clock :: "nat \<Rightarrow> int"
  vector_search :: "string \<Rightarrow> int \<Rightarrow> js_error + passage list"
  gemini :: provider
  random :: "nat \<Rightarrow> real"

definition falsy :: "string option \<Rightarrow> bool" where
  "falsy v = (case v of None \<Rightarrow> True | Some s \<Rightarrow> s = [])"

definition qdrantSearch :: "config \<Rightarrow> env \<Rightarrow> string \<Rightarrow> int \<Rightarrow> js_error + passage list" where
  "qdrantSearch cfg ev query topK =
     (if falsy (QDRANT_URL cfg) \<or> falsy (QDRANT_API_KEY cfg)
      then Inl \<lparr>err_message = ''Missing Qdrant config'', resp_status = None, resp_code = None\<rparr>
      else vector_search ev query topK)"

text \<open>
  The request body when \<open>express.json()\<close> has parsed one: \<open>None\<close> is a property that is
  missing. (Values that are not strings are outside the model.) \<open>falsy v\<close> is \<open>!v\<close>, and
  \<open>validate\<close> is the guard \<open>!sessionId || !message\<close> of the route together with the
  destructuring: it yields the two strings when the guard lets the request pass.
\<close>

record req_body =
  sessionId :: "string option"
  message :: "string option"

datatype json_body =
  Error_body string
| Error_detail_body string string
| Chat_body string "source list"

record response =
  status :: nat
  body :: json_body

definition validate :: "req_body \<Rightarrow> (string \<times> string) option" where
  "validate req =
     (if falsy (sessionId req) \<or> falsy (message req) then None
      else (case (sessionId req, message req) of
              (Some s, Some m) \<Rightarrow> Some (s, m)
            | _ \<Rightarrow> None))"

text \<open>
  \<open>destructure_error\<close> is the \<open>TypeError\<close> that
  \<open>const { sessionId, message } = req.body\<close> throws when \<open>req.body\<close> is \<open>undefined\<close>, with the
  message V8 gives it.
\<close>

definition destructure_error :: js_error where
  "destructure_error =
     \<lparr>err_message =
        ''Cannot destructure property 'sessionId' of 'req.body' as it is undefined.'',
      resp_status = None, resp_code = None\<rparr>"

text \<open>
  \<open>chat_failed\<close> is the response of the route's \<open>catch\<close>; \<open>answer_of\<close> is the inner
  \<open>try\<close>/\<open>catch\<close> around \<open>askGemini\<close>, from the result of \<open>askGemini\<close> to the answer. The
  route's logging (\<open>console.warn\<close>, \<open>console.error\<close>) is left out.
\<close>

definition chat_failed :: "js_error \<Rightarrow> response" where
  "chat_failed e = \<lparr>status = 500, body = Error_detail_body ''chat_failed'' (err_message e)\<rparr>"

definition answer_of :: "thrown + string \<Rightarrow> string \<Rightarrow> passage list \<Rightarrow> string" where
  "answer_of r query passages =
     (case r of
        Inr raw \<Rightarrow>
          (let t = js_trim raw
           in if t = [] then ''I am unsure. None of the provided text answers that.'' else t)
      | Inl e \<Rightarrow> busyFallback query passages)"

text \<open>
  The route. Its argument is \<open>req.body\<close>: \<open>None\<close> when it is \<open>undefined\<close>, which is what
  Express 5 leaves when no JSON body was parsed (Express 4 puts an empty object there; the
  sources do not say which version runs). Destructuring \<open>undefined\<close> throws inside the
  \<open>try\<close>, so the \<open>catch\<close> answers.
\<close>

definition chat ::
  "('s, 't) backend \<Rightarrow> 't codec \<Rightarrow> config \<Rightarrow> env \<Rightarrow> req_body option \<Rightarrow> 's
     \<Rightarrow> response \<times> 's" where
  "chat be cd cfg ev parsed st =
     (case parsed of
        None \<Rightarrow> (chat_failed destructure_error, st)
      | Some req \<Rightarrow>
          (case validate req of
             None \<Rightarrow>
               (\<lparr>status = 400, body = Error_body ''sessionId & message required''\<rparr>, st)
           | Some (sid, msg) \<Rightarrow>
               (case pushMsg be cd (clock ev 0) sid ''user'' msg [] st of
                  (Inl e, st1) \<Rightarrow> (chat_failed e, st1)
                | (Inr _, st1) \<Rightarrow>
                    (case qdrantSearch cfg ev msg (TOP_K cfg) of
                       Inl e \<Rightarrow> (chat_failed e, st1)
                     | Inr passages \<Rightarrow>
                         (let prompt = buildPrompt msg passages;
                              answer = answer_of
                                (fst (askGemini cfg (gemini ev) (random ev) prompt))
                                msg passages;
                              sources = sources_of passages
                          in case pushMsg be cd (clock ev 1) sid ''assistant'' answer [] st1 of
                               (Inl e, st2) \<Rightarrow> (chat_failed e, st2)
                             | (Inr _, st2) \<Rightarrow>
                                 (\<lparr>status = 200, body = Chat_body answer sources\<rparr>,
                                  st2))))))"

section \<open>Drivers and sample inputs\<close>

text \<open>
  A call \<open>pushMsg(id, role, content)\<close>, made when \<open>Date.now()\<close> reads \<open>ts\<close>, and a sequence
  of such calls run against the in-memory store. \<open>written\<close> is the message object the
  call is meant to leave in the log.
\<close>

datatype push = Push string string string int

fun push_id :: "push \<Rightarrow> string" where
  "push_id (Push id' role content ts) = id'"

fun written :: "push \<Rightarrow> obj" where
  "written (Push id' role content ts) =
     [(''role'', JStr role), (''content'', JStr content), (''ts'', JNum ts)]"

fun run_push :: "'t codec \<Rightarrow> 't mem \<Rightarrow> push \<Rightarrow> 't mem" where
  "run_push cd st (Push id' role content ts) =
     snd (pushMsg mem_backend cd ts id' role content [] st)"

definition push_all :: "'t codec \<Rightarrow> push list \<Rightarrow> 't mem \<Rightarrow> 't mem" where
  "push_all cd ps st = foldl (run_push cd) st ps"

text \<open>
  A stand-in for the two remote clients (Upstash REST, ioredis), which are libraries: it
  behaves as the in-memory store for a given number of commands and rejects every
  command after that, as a client does once the server cannot be reached.
\<close>

definition unreachable :: js_error where
  "unreachable = \<lparr>err_message = ''connect ECONNREFUSED'', resp_status = None, resp_code = None\<rparr>"

definition guarded ::
  "('t mem \<Rightarrow> (js_error + 'a) \<times> 't mem) \<Rightarrow> 't mem \<times> nat \<Rightarrow> (js_error + 'a) \<times> ('t mem \<times> nat)" where
  "guarded f st =
     (case st of (mem, left) \<Rightarrow>
        if left = 0 then (Inl unreachable, (mem, left))
        else (case f mem of (r, mem') \<Rightarrow> (r, (mem', left - 1))))"

definition flaky_backend :: "('t mem \<times> nat, 't) backend" where
  "flaky_backend =
     \<lparr>rpush = (\<lambda>k v. guarded (mem_rpush k v)),
      lrange = (\<lambda>k s e. guarded (mem_lrange k s e)),
      expire = (\<lambda>k sec. guarded (mem_expire k sec)),
      del = (\<lambda>k. guarded (mem_del k))\<rparr>"

text \<open>A codec that keeps the object as its own serialised form.\<close>

definition plain_codec :: "obj codec" where
  "plain_codec = \<lparr>stringify = (\<lambda>m. m), parse = Inr\<rparr>"

definition cfg_default :: config where
  "cfg_default = \<lparr>TOP_K = 5, LLM_RETRIES = 3, LLM_RETRY_MS = 800,
     QDRANT_URL = Some ''http://qdrant'', QDRANT_API_KEY = Some ''k''\<rparr>"

definition cfg_single :: config where
  "cfg_single = cfg_default\<lparr>LLM_RETRIES := 1\<rparr>"

definition err_429 :: js_error where
  "err_429 = \<lparr>err_message = ''Request failed with status code 429'',
     resp_status = Some 429, resp_code = Some 429\<rparr>"

definition err_401 :: js_error where
  "err_401 = \<lparr>err_message = ''Request failed with status code 401'',
     resp_status = Some 401, resp_code = Some 401\<rparr>"

definition always_429 :: provider where
  "always_429 = (\<lambda>prompt n. Inl err_429)"

definition first_429_then_401 :: provider where
  "first_429_then_401 = (\<lambda>prompt n. if n = 0 then Inl err_429 else Inl err_401)"

definition answers_blank :: provider where
  "answers_blank = (\<lambda>prompt n. Inr (Some [CHR 0xC2, CHR 0xA0, CHR 0x20]))"

definition answers_hi :: provider where
  "answers_hi = (\<lambda>prompt n. Inr (Some ''hi''))"

definition rnd_half :: "nat \<Rightarrow> real" where
  "rnd_half = (\<lambda>k. 1 / 2)"

definition p1 :: passage where
  "p1 = \<lparr>score = 1, title = Some ''T1'', url = Some ''http://a'', chunk = Some ''c1''\<rparr>"

definition p2 :: passage where
  "p2 = \<lparr>score = 1 / 2, title = Some ''T2'', url = Some ''http://b'', chunk = None\<rparr>"

definition env_of :: "provider \<Rightarrow> env" where
  "env_of l = \<lparr>clock = (\<lambda>k. 1000 + int k), vector_search = (\<lambda>q k. Inr [p1]),
     gemini = l, random = rnd_half\<rparr>"

definition req1 :: req_body where
  "req1 = \<lparr>sessionId = Some ''s'', message = Some ''q''\<rparr>"

section \<open>The retry loop, one iteration at a time\<close>

lemma loop_step_retry:
  assumes "askGeminiRaw llm prompt (calls tr) = Inl e" "retryable e" "i < LLM_RETRIES cfg - 1"
  shows "askGemini_loop cfg llm rnd prompt i d tr =
         askGemini_loop cfg llm rnd prompt (i + 1) (d * 2)
           (tr\<lparr>calls := Suc (calls tr),
               sleeps := sleeps tr @ [d + \<lfloor>rnd (length (sleeps tr)) * 250\<rfloor>]\<rparr>)"
  using assms by (simp add: askGemini_loop.simps [of _ _ _ _ i] Let_def)

lemma loop_step_throw:
  assumes "askGeminiRaw llm prompt (calls tr) = Inl e" "\<not> (retryable e \<and> i < LLM_RETRIES cfg - 1)"
    "i < LLM_RETRIES cfg"
  shows "askGemini_loop cfg llm rnd prompt i d tr = (Inl (Rethrown e), tr\<lparr>calls := Suc (calls tr)\<rparr>)"
  using assms by (auto simp add: askGemini_loop.simps [of _ _ _ _ i] Let_def)

lemma loop_step_return:
  assumes "askGeminiRaw llm prompt (calls tr) = Inr t" "i < LLM_RETRIES cfg"
  shows "askGemini_loop cfg llm rnd prompt i d tr = (Inr t, tr\<lparr>calls := Suc (calls tr)\<rparr>)"
  using assms by (auto simp add: askGemini_loop.simps [of _ _ _ _ i])

lemma loop_exit:
  assumes "\<not> i < LLM_RETRIES cfg"
  shows "askGemini_loop cfg llm rnd prompt i d tr = (Inl Llm_unavailable, tr)"
  using assms by (auto simp add: askGemini_loop.simps [of _ _ _ _ i])

lemma loop_not_fallthrough:
  "i < LLM_RETRIES cfg \<Longrightarrow> fst (askGemini_loop cfg llm rnd prompt i d tr) \<noteq> Inl Llm_unavailable"
proof (induction cfg llm rnd prompt i d tr rule: askGemini_loop.induct)
  case (1 cfg llm rnd prompt i delay tr)
  show ?case
  proof (cases "askGeminiRaw llm prompt (calls tr)")
    case (Inr t)
    with "1.prems" show ?thesis by (simp add: loop_step_return)
  next
    case (Inl err)
    show ?thesis
    proof (cases "retryable err \<and> i < LLM_RETRIES cfg - 1")
      case True
      then have "i + 1 < LLM_RETRIES cfg" by simp
      with "1.IH" [OF "1.prems" Inl refl] True 
      show ?thesis
        by (simp add: loop_step_retry [OF Inl])
    next
      case False
      with Inl "1.prems" show ?thesis
        by (simp add: loop_step_throw [OF Inl])
    qed
  qed
qed

lemma loop_calls_grow:
  "i < LLM_RETRIES cfg \<Longrightarrow> calls tr < calls (snd (askGemini_loop cfg llm rnd prompt i d tr))"
proof (induction cfg llm rnd prompt i d tr rule: askGemini_loop.induct)
  case (1 cfg llm rnd prompt i delay tr)
  show ?case
  proof (cases "askGeminiRaw llm prompt (calls tr)")
    case (Inr t)
    with "1.prems" show ?thesis by (simp add: loop_step_return)
  next
    case (Inl err)
    show ?thesis
    proof (cases "retryable err \<and> i < LLM_RETRIES cfg - 1")
      case True
      then have "i + 1 < LLM_RETRIES cfg" by simp
      with "1.IH" [OF "1.prems" Inl refl] True 
      show ?thesis
        by (simp add: loop_step_retry [OF Inl])
    next
      case False
      with Inl "1.prems" show ?thesis
        by (simp add: loop_step_throw [OF Inl])
    qed
  qed
qed

lemma loop_all_retryable:
  shows "\<forall>n. \<exists>e. askGeminiRaw llm prompt n = Inl e \<and> retryable e \<Longrightarrow> i \<le> LLM_RETRIES cfg \<Longrightarrow>
     snd (askGemini_loop cfg llm rnd prompt i d tr) =
       tr\<lparr>calls := calls tr + nat (LLM_RETRIES cfg - i),
          sleeps := sleeps tr @
             map (\<lambda>k. d * 2 ^ k + \<lfloor>rnd (length (sleeps tr) + k) * 250\<rfloor>)
                 [0..<nat (LLM_RETRIES cfg - 1 - i)]\<rparr>"
proof (induction cfg llm rnd prompt i d tr rule: askGemini_loop.induct)
  case (1 cfg llm rnd prompt i delay tr)
  from "1.prems"(1) obtain e where e: "askGeminiRaw llm prompt (calls tr) = Inl e" "retryable e"
    by blast
  show ?case
  proof (cases "i < LLM_RETRIES cfg")
    case False
    with "1.prems"(2) have "i = LLM_RETRIES cfg" by simp
    with False show ?thesis by (simp add: loop_exit)
  next
    case lt: True
    show ?thesis
    proof (cases "i < LLM_RETRIES cfg - 1")
      case True
      then have le: "i + 1 \<le> LLM_RETRIES cfg" by simp
      define m where "m = nat (LLM_RETRIES cfg - 1 - (i + 1))"
      have m: "nat (LLM_RETRIES cfg - 1 - i) = Suc m"
        "nat (LLM_RETRIES cfg - 1 - (i + 1)) = m" "nat (LLM_RETRIES cfg - i) = Suc (Suc m)"
          "nat (LLM_RETRIES cfg - (i + 1)) = Suc m" "nat (LLM_RETRIES cfg - i - 2) = m"
        using True unfolding m_def by linarith+
      have map_eq: "map f [0..<Suc m] = f 0 # map (\<lambda>k. f (Suc k)) [0..<m]" for f :: "nat \<Rightarrow> int"
        by (simp add: map_upt_Suc del: upt_Suc)
      show ?thesis
        using "1.IH" [OF lt e(1) refl e(2) True "1.prems"(1) le]
        by (simp add: loop_step_retry [OF e True] m map_eq mult.assoc del: upt_Suc)
    next
      case False
      with lt have "i = LLM_RETRIES cfg - 1" by simp
      with False lt e show ?thesis
        by (simp add: loop_step_throw [OF e(1)])
    qed
  qed
qed


lemma loop_sleeps_prefix:
  "prefix (sleeps tr) (sleeps (snd (askGemini_loop cfg llm rnd prompt i d tr)))"
proof (induction cfg llm rnd prompt i d tr rule: askGemini_loop.induct)
  case (1 cfg llm rnd prompt i delay tr)
  show ?case
  proof (cases "i < LLM_RETRIES cfg")
    case False
    then show ?thesis by (simp add: loop_exit)
  next
    case lt: True
    show ?thesis
    proof (cases "askGeminiRaw llm prompt (calls tr)")
      case (Inr t)
      with lt show ?thesis by (simp add: loop_step_return)
    next
      case (Inl err)
      show ?thesis
      proof (cases "retryable err \<and> i < LLM_RETRIES cfg - 1")
        case True
        with "1.IH" [OF lt Inl refl]
        have "prefix (sleeps tr @ [delay + \<lfloor>rnd (length (sleeps tr)) * 250\<rfloor>])
                (sleeps (snd (askGemini_loop cfg llm rnd prompt i delay tr)))"
          by (simp add: loop_step_retry [OF Inl])
        then show ?thesis by (rule append_prefixD)
      next
        case False
        with lt show ?thesis by (simp add: loop_step_throw [OF Inl])
      qed
    qed
  qed
qed

lemma raw_Inl_iff: "askGeminiRaw llm prompt n = Inl e \<longleftrightarrow> llm prompt n = Inl e"
  by (simp add: askGeminiRaw_def split: sum.splits)

lemma retryable_iff:
  "retryable e \<longleftrightarrow>
     resp_status e = Some 429 \<or> resp_status e = Some 503 \<or>
     resp_code e = Some 429 \<or> resp_code e = Some 503"
  by (simp add: retryable_def Let_def)

lemma loop_all_fail:
  "\<forall>n. \<exists>e. askGeminiRaw llm prompt n = Inl e \<Longrightarrow>
     \<exists>x. fst (askGemini_loop cfg llm rnd prompt i d tr) = Inl x"
proof (induction cfg llm rnd prompt i d tr rule: askGemini_loop.induct)
  case (1 cfg llm rnd prompt i delay tr)
  from "1.prems" obtain e where e: "askGeminiRaw llm prompt (calls tr) = Inl e"
    by blast
  show ?case
  proof (cases "i < LLM_RETRIES cfg")
    case False
    then show ?thesis by (simp add: loop_exit)
  next
    case lt: True
    show ?thesis
    proof (cases "retryable e \<and> i < LLM_RETRIES cfg - 1")
      case True
      with "1.IH" [OF lt e refl _ _ "1.prems"] show ?thesis
        by (simp add: loop_step_retry [OF e])
    next
      case False
      with lt show ?thesis by (simp add: loop_step_throw [OF e])
    qed
  qed
qed

lemma loop_prefix:
  "\<forall>k<n. \<exists>e. askGeminiRaw llm prompt (calls tr + k) = Inl e \<and> retryable e \<Longrightarrow>
   i + int n < LLM_RETRIES cfg \<Longrightarrow>
   askGemini_loop cfg llm rnd prompt i d tr =
   askGemini_loop cfg llm rnd prompt (i + int n) (d * 2 ^ n)
     (tr\<lparr>calls := calls tr + n,
         sleeps := sleeps tr @
           map (\<lambda>k. d * 2 ^ k + \<lfloor>rnd (length (sleeps tr) + k) * 250\<rfloor>) [0..<n]\<rparr>)"
proof (induction n)
  case 0
  then show ?case by simp
next
  case (Suc n)
  let ?tr = "tr\<lparr>calls := calls tr + n,
         sleeps := sleeps tr @
           map (\<lambda>k. d * 2 ^ k + \<lfloor>rnd (length (sleeps tr) + k) * 250\<rfloor>) [0..<n]\<rparr>"
  from Suc.prems(1) obtain e where e: "askGeminiRaw llm prompt (calls tr + n) = Inl e" "retryable e"
    by blast
  have e': "askGeminiRaw llm prompt (calls ?tr) = Inl e" using e(1) by simp
  have lt: "i + int n < LLM_RETRIES cfg - 1" using Suc.prems(2) by simp
  have "askGemini_loop cfg llm rnd prompt i d tr =
        askGemini_loop cfg llm rnd prompt (i + int n) (d * 2 ^ n) ?tr"
    using Suc.IH Suc.prems by simp
  also have "\<dots> = askGemini_loop cfg llm rnd prompt (i + int n + 1) (d * 2 ^ n * 2)
           (?tr\<lparr>calls := Suc (calls ?tr),
               sleeps := sleeps ?tr @ [d * 2 ^ n + \<lfloor>rnd (length (sleeps ?tr)) * 250\<rfloor>]\<rparr>)"
    by (rule loop_step_retry [OF e' e(2) lt])
  also have "\<dots> = askGemini_loop cfg llm rnd prompt (i + int (Suc n)) (d * 2 ^ Suc n)
     (tr\<lparr>calls := calls tr + Suc n,
         sleeps := sleeps tr @
           map (\<lambda>k. d * 2 ^ k + \<lfloor>rnd (length (sleeps tr) + k) * 250\<rfloor>) [0..<Suc n]\<rparr>)"
    by (simp add: ac_simps)
  finally show ?case .
qed

section \<open>The trailing throw of \<open>askGemini\<close>\<close>

lemma askGemini_no_iteration:
  "LLM_RETRIES cfg \<le> 0 \<Longrightarrow>
     askGemini cfg llm rnd prompt = (Inl Llm_unavailable, \<lparr>calls = 0, sleeps = []\<rparr>)"
  by (simp add: askGemini_def loop_exit)

text \<open>
  Claim C10. When \<open>LLM_RETRIES\<close> is at least 1, \<open>askGemini\<close> never ends in the
  \<open>throw new Error('llm_unavailable')\<close> that follows the loop: it returns the model's text
  or rethrows the error it caught from the provider.
\<close>

theorem askGemini_trailing_throw_unreachable:
  "1 \<le> LLM_RETRIES cfg \<Longrightarrow>
     fst (askGemini cfg llm rnd prompt) \<noteq> Inl Llm_unavailable \<and>
     ((\<exists>t. fst (askGemini cfg llm rnd prompt) = Inr t) \<or>
      (\<exists>e. fst (askGemini cfg llm rnd prompt) = Inl (Rethrown e)))"
proof -
  assume "1 \<le> LLM_RETRIES cfg"
  then have ne: "fst (askGemini cfg llm rnd prompt) \<noteq> Inl Llm_unavailable"
    unfolding askGemini_def by (intro loop_not_fallthrough) simp
  show ?thesis
  proof (cases "fst (askGemini cfg llm rnd prompt)")
    case (Inl x)
    with ne show ?thesis by (cases x) simp_all
  next
    case (Inr t)
    then show ?thesis by simp
  qed
qed

theorem askGemini_trailing_throw_unreachable_witness:
  "1 \<le> LLM_RETRIES cfg_default \<and>
   fst (askGemini cfg_default always_429 rnd_half ''q'') \<noteq> Inl Llm_unavailable"
  using askGemini_trailing_throw_unreachable [of cfg_default always_429 rnd_half "''q''"]
  by (simp add: cfg_default_def)

section \<open>The retry bound\<close>

text \<open>
  Claim C3. If every call of the provider fails with HTTP status 429, \<open>askGemini\<close>
  makes exactly \<open>LLM_RETRIES\<close> attempts and then fails. It sleeps before each retry: the
  \<open>k\<close>-th sleep (from 0) is \<open>LLM_RETRY_MS * 2 ^ k\<close> plus the jitter
  \<open>Math.floor(Math.random() * 250)\<close>, which is not negative, so the first wait is at least
  \<open>LLM_RETRY_MS\<close> and the delay doubles from one retry to the next. \<open>LLM_RETRIES\<close> is a
  number of attempts, hence not negative; \<open>Math.random()\<close> is not negative.
\<close>

theorem askGemini_always_429:
  assumes all429: "\<forall>n. \<exists>e. llm prompt n = Inl e \<and> resp_status e = Some 429"
    and count: "0 \<le> LLM_RETRIES cfg"
    and rnd: "\<forall>k. 0 \<le> rnd k"
  shows "calls (snd (askGemini cfg llm rnd prompt)) = nat (LLM_RETRIES cfg) \<and>
         (\<exists>x. fst (askGemini cfg llm rnd prompt) = Inl x) \<and>
         sleeps (snd (askGemini cfg llm rnd prompt)) =
           map (\<lambda>k. LLM_RETRY_MS cfg * 2 ^ k + \<lfloor>rnd k * 250\<rfloor>)
             [0..<nat (LLM_RETRIES cfg - 1)] \<and>
         (\<forall>k. 0 \<le> \<lfloor>rnd k * 250\<rfloor>) \<and>
         (2 \<le> LLM_RETRIES cfg \<longrightarrow>
            LLM_RETRY_MS cfg \<le> hd (sleeps (snd (askGemini cfg llm rnd prompt))))"
proof -
  have raw: "\<forall>n. \<exists>e. askGeminiRaw llm prompt n = Inl e \<and> retryable e"
    using all429 by (auto simp: raw_Inl_iff retryable_iff)
  have tr: "snd (askGemini cfg llm rnd prompt) =
      \<lparr>calls = nat (LLM_RETRIES cfg),
       sleeps = map (\<lambda>k. LLM_RETRY_MS cfg * 2 ^ k + \<lfloor>rnd k * 250\<rfloor>)
             [0..<nat (LLM_RETRIES cfg - 1)]\<rparr>"
    unfolding askGemini_def using loop_all_retryable [OF raw, of 0 cfg rnd "LLM_RETRY_MS cfg"
        "\<lparr>calls = 0, sleeps = []\<rparr>"] count
    by simp
  have fail: "\<exists>x. fst (askGemini cfg llm rnd prompt) = Inl x"
    unfolding askGemini_def using raw by (intro loop_all_fail) blast
  have jit: "\<forall>k. 0 \<le> \<lfloor>rnd k * 250\<rfloor>" using rnd by simp
  have first: "LLM_RETRY_MS cfg \<le> hd (sleeps (snd (askGemini cfg llm rnd prompt)))"
    if "2 \<le> LLM_RETRIES cfg"
  proof -
    define m where "m = nat (LLM_RETRIES cfg - 2)"
    have m: "nat (LLM_RETRIES cfg - 1) = Suc m"
      using that unfolding m_def by linarith
    have "hd (sleeps (snd (askGemini cfg llm rnd prompt))) = LLM_RETRY_MS cfg + \<lfloor>rnd 0 * 250\<rfloor>"
      unfolding tr by (simp add: m upt_conv_Cons del: upt_Suc)
    with jit show ?thesis by (metis add.right_neutral add_left_mono)
  qed
  from tr fail jit first show ?thesis by simp
qed


theorem askGemini_always_429_witness:
  "calls (snd (askGemini cfg_default always_429 rnd_half ''q'')) = 3 \<and>
   sleeps (snd (askGemini cfg_default always_429 rnd_half ''q'')) = [925, 1725]"
proof -
  have h1: "\<forall>n. \<exists>e. always_429 ''q'' n = Inl e \<and> resp_status e = Some 429"
    by (simp add: always_429_def err_429_def)
  have h2: "0 \<le> LLM_RETRIES cfg_default" by (simp add: cfg_default_def)
  have h3: "\<forall>k. 0 \<le> rnd_half k" by (simp add: rnd_half_def)
  have up: "[0..<2] = [0, Suc 0]" by (simp add: upt_conv_Cons)
  show ?thesis
    using askGemini_always_429 [where llm = always_429 and prompt = "''q''" and cfg = cfg_default
        and rnd = rnd_half, OF h1 h2 h3]
    by (simp add: cfg_default_def rnd_half_def up)
qed

section \<open>Which failures are retried\<close>

text \<open>
  Claim C4, as stated, fails: a failure with status 429 on the last permitted attempt is
  rethrown, not retried. With \<open>LLM_RETRIES = 1\<close> the single attempt fails with 429 and
  \<open>askGemini\<close> makes no second call and no sleep.
\<close>

theorem askGemini_last_attempt_not_retried:
  "always_429 ''q'' 0 = Inl err_429 \<and> resp_status err_429 = Some 429 \<and>
   askGemini cfg_single always_429 rnd_half ''q'' =
     (Inl (Rethrown err_429), \<lparr>calls = 1, sleeps = []\<rparr>)"
  by (simp add: askGemini_def askGemini_loop.simps [of _ _ _ _ 0] cfg_single_def cfg_default_def
      always_429_def err_429_def askGeminiRaw_def retryable_def)


text \<open>
  Claim C4, amended. Let attempt \<open>n\<close> (from 0) be reached, because the attempts before it
  failed with a retryable error and \<open>n < LLM_RETRIES\<close>, and let it fail with \<open>e\<close>. Then
  \<open>askGemini\<close> retries, that is sleeps \<open>LLM_RETRY_MS * 2 ^ n\<close> plus jitter and calls the
  provider again, if and only if \<open>e\<close> carries status 429 or 503, or error code 429 or 503,
  and attempt \<open>n\<close> is not the last permitted one (\<open>n < LLM_RETRIES - 1\<close>). Every other
  failure, one of another kind or one on the last permitted attempt, is propagated at once:
  \<open>askGemini\<close> throws \<open>e\<close> itself after \<open>n + 1\<close> calls, and no sleep follows the failure
  (the \<open>n\<close> sleeps are those of the earlier retries).
\<close>

theorem askGemini_retry_iff:
  assumes reach: "\<forall>k<n. \<exists>e'. llm prompt k = Inl e' \<and> retryable e'"
    and budget: "int n < LLM_RETRIES cfg"
    and fails: "llm prompt n = Inl e"
  shows "(Suc n < calls (snd (askGemini cfg llm rnd prompt)) \<longleftrightarrow>
            (resp_status e = Some 429 \<or> resp_status e = Some 503 \<or>
             resp_code e = Some 429 \<or> resp_code e = Some 503) \<and>
            int n < LLM_RETRIES cfg - 1) \<and>
         ((resp_status e = Some 429 \<or> resp_status e = Some 503 \<or>
           resp_code e = Some 429 \<or> resp_code e = Some 503) \<and>
          int n < LLM_RETRIES cfg - 1 \<longrightarrow>
            n < length (sleeps (snd (askGemini cfg llm rnd prompt))) \<and>
            sleeps (snd (askGemini cfg llm rnd prompt)) ! n =
              LLM_RETRY_MS cfg * 2 ^ n + \<lfloor>rnd n * 250\<rfloor>) \<and>
         (\<not> ((resp_status e = Some 429 \<or> resp_status e = Some 503 \<or>
              resp_code e = Some 429 \<or> resp_code e = Some 503) \<and>
             int n < LLM_RETRIES cfg - 1) \<longrightarrow>
            askGemini cfg llm rnd prompt =
              (Inl (Rethrown e),
               \<lparr>calls = Suc n,
                sleeps = map (\<lambda>k. LLM_RETRY_MS cfg * 2 ^ k + \<lfloor>rnd k * 250\<rfloor>) [0..<n]\<rparr>))"
proof -
  let ?tr = "\<lparr>calls = n,
     sleeps = map (\<lambda>k. LLM_RETRY_MS cfg * 2 ^ k + \<lfloor>rnd k * 250\<rfloor>) [0..<n]\<rparr>"
  let ?d = "LLM_RETRY_MS cfg * 2 ^ n"
  let ?tr' = "?tr\<lparr>calls := Suc (calls ?tr),
                 sleeps := sleeps ?tr @ [?d + \<lfloor>rnd (length (sleeps ?tr)) * 250\<rfloor>]\<rparr>"
  have pre: "\<forall>k<n. \<exists>e'. askGeminiRaw llm prompt (calls \<lparr>calls = 0, sleeps = []\<rparr> + k) = Inl e'
      \<and> retryable e'"
    using reach by (simp add: raw_Inl_iff)
  have run: "askGemini cfg llm rnd prompt = askGemini_loop cfg llm rnd prompt (int n) ?d ?tr"
    unfolding askGemini_def
    using loop_prefix [OF pre, of 0 cfg rnd "LLM_RETRY_MS cfg"] budget by simp
  have e: "askGeminiRaw llm prompt (calls ?tr) = Inl e"
    using fails by (simp add: raw_Inl_iff)
  show ?thesis
  proof (cases "retryable e \<and> int n < LLM_RETRIES cfg - 1")
    case True
    then have next_iter: "int n + 1 < LLM_RETRIES cfg" by simp
    have again: "askGemini cfg llm rnd prompt =
          askGemini_loop cfg llm rnd prompt (int n + 1) (?d * 2) ?tr'"
      unfolding run using True by (intro loop_step_retry [OF e]) simp_all
    then have more: "Suc n < calls (snd (askGemini cfg llm rnd prompt))"
      using loop_calls_grow [OF next_iter, where llm = llm and rnd = rnd and prompt = prompt
          and d = "?d * 2" and tr = ?tr']
      by simp
    have "prefix (sleeps ?tr') (sleeps (snd (askGemini cfg llm rnd prompt)))"
      unfolding again by (rule loop_sleeps_prefix)
    then obtain zs where zs: "sleeps (snd (askGemini cfg llm rnd prompt)) = sleeps ?tr' @ zs"
      by (auto simp: prefix_def)
    have "n < length (sleeps (snd (askGemini cfg llm rnd prompt))) \<and>
          sleeps (snd (askGemini cfg llm rnd prompt)) ! n = ?d + \<lfloor>rnd n * 250\<rfloor>"
      unfolding zs by (simp add: nth_append)
    with True more show ?thesis by (simp add: retryable_iff)
  next
    case False
    have "askGemini cfg llm rnd prompt = (Inl (Rethrown e), ?tr\<lparr>calls := Suc (calls ?tr)\<rparr>)"
      unfolding run using False budget by (intro loop_step_throw [OF e]) simp_all
    with False show ?thesis by (auto simp add: retryable_iff)
  qed
qed

theorem askGemini_retry_iff_witness:
  "askGemini cfg_default first_429_then_401 rnd_half ''q'' =
     (Inl (Rethrown err_401), \<lparr>calls = 2, sleeps = [925]\<rparr>)"
proof -
  have h1: "\<forall>k<1. \<exists>e'. first_429_then_401 ''q'' k = Inl e' \<and> retryable e'"
    by (simp add: first_429_then_401_def err_429_def retryable_iff)
  have h2: "int 1 < LLM_RETRIES cfg_default" by (simp add: cfg_default_def)
  have h3: "first_429_then_401 ''q'' 1 = Inl err_401" by (simp add: first_429_then_401_def)
  show ?thesis
    using askGemini_retry_iff [where llm = first_429_then_401 and prompt = "''q''" and n = 1
        and cfg = cfg_default and e = err_401 and rnd = rnd_half, OF h1 h2 h3]
    by (simp add: err_401_def cfg_default_def rnd_half_def)
qed

section \<open>Trimming\<close>

lemma white_space_nonempty: "w \<in> set white_space \<Longrightarrow> w \<noteq> []"
  by (auto simp: white_space_def)

lemma white_space_prefix_free:
  "a \<in> set white_space \<Longrightarrow> b \<in> set white_space \<Longrightarrow> prefix a b \<Longrightarrow> a = b"
  unfolding white_space_def by (elim set_ConsD [elim_format] disjE) simp_all

lemma strip_decomp:
  "\<exists>pre. set pre \<subseteq> {w \<in> set ws. w \<noteq> []} \<and> s = concat pre @ strip ws s"
proof (induction ws s rule: strip.induct)
  case (1 ws s)
  show ?case
  proof (cases "find (\<lambda>w. w \<noteq> [] \<and> prefix w s) ws")
    case None
    then have "strip ws s = s" by (simp add: strip.simps [of ws s])
    then have "set [] \<subseteq> {w \<in> set ws. w \<noteq> []} \<and> s = concat [] @ strip ws s" by simp
    then show ?thesis by blast
  next
    case (Some w)
    then have w: "w \<in> set ws" "w \<noteq> []" "prefix w s"
      by (auto simp: find_Some_iff)
    from "1.IH" [OF Some] obtain pre where
      pre: "set pre \<subseteq> {w \<in> set ws. w \<noteq> []}"
        "drop (length w) s = concat pre @ strip ws (drop (length w) s)"
      by blast
    from w(3) have "s = w @ drop (length w) s" by (auto simp: prefix_def)
    with pre(2) have "s = concat (w # pre) @ strip ws (drop (length w) s)" by simp
    moreover have "strip ws s = strip ws (drop (length w) s)"
      using Some by (simp add: strip.simps [of ws s])
    ultimately have "set (w # pre) \<subseteq> {w \<in> set ws. w \<noteq> []} \<and> s = concat (w # pre) @ strip ws s"
      using pre(1) w by simp
    then show ?thesis by blast
  qed
qed

lemma strip_fixed:
  "w \<in> set ws \<Longrightarrow> w \<noteq> [] \<Longrightarrow> \<not> prefix w (strip ws s)"
proof (induction ws s rule: strip.induct)
  case (1 ws s)
  show ?case
  proof (cases "find (\<lambda>w. w \<noteq> [] \<and> prefix w s) ws")
    case None
    then have "strip ws s = s" by (simp add: strip.simps [of ws s])
    with None "1.prems" show ?thesis by (auto simp: find_None_iff)
  next
    case (Some v)
    then have "strip ws s = strip ws (drop (length v) s)"
      by (simp add: strip.simps [of ws s])
    with "1.IH" [OF Some "1.prems"] show ?thesis by simp
  qed
qed

lemma strip_concat:
  assumes free: "\<And>a b. a \<in> set ws \<Longrightarrow> b \<in> set ws \<Longrightarrow> prefix a b \<Longrightarrow> a = b"
    and ne: "\<And>a. a \<in> set ws \<Longrightarrow> a \<noteq> []"
  shows "set xs \<subseteq> set ws \<Longrightarrow> strip ws (concat xs @ t) = strip ws t"
proof (induction xs)
  case Nil
  then show ?case by simp
next
  case (Cons x xs)
  then have x: "x \<in> set ws" "x \<noteq> []" using ne by auto
  let ?s = "x @ concat xs @ t"
  from x have "\<exists>w. w \<in> set ws \<and> w \<noteq> [] \<and> prefix w ?s" by auto
  then obtain w where f: "find (\<lambda>w. w \<noteq> [] \<and> prefix w ?s) ws = Some w"
    by (cases "find (\<lambda>w. w \<noteq> [] \<and> prefix w ?s) ws") (auto simp: find_None_iff)
  then have w: "w \<in> set ws" "prefix w ?s" by (auto simp: find_Some_iff)
  have "prefix x ?s" by simp
  with w(2) have "prefix w x \<or> prefix x w" by (rule prefix_same_cases)
  with free w(1) x(1) have "w = x" by blast
  then have "strip ws ?s = strip ws (concat xs @ t)"
    using f by (simp add: strip.simps [of ws ?s])
  with Cons show ?case by simp
qed

lemma strip_no_match: "strip ws [] = []"
proof -
  have "find (\<lambda>w. w \<noteq> [] \<and> prefix w []) ws = None"
    by (auto simp: find_None_iff)
  then show ?thesis by (simp add: strip.simps [of ws "[]"])
qed

lemma js_trim_decomp:
  "\<exists>pre post. set pre \<subseteq> set white_space \<and> set post \<subseteq> set white_space \<and>
     raw = concat pre @ js_trim raw @ concat post"
proof -
  obtain pre where pre: "set pre \<subseteq> set white_space" "raw = concat pre @ trimStart raw"
    using strip_decomp [of white_space raw] unfolding trimStart_def by blast
  obtain q where q: "set q \<subseteq> set (map rev white_space)"
    "rev (trimStart raw) = concat q @ strip (map rev white_space) (rev (trimStart raw))"
    using strip_decomp [of "map rev white_space" "rev (trimStart raw)"] by blast
  let ?post = "map rev (rev q)"
  have "trimStart raw = rev (concat q @ strip (map rev white_space) (rev (trimStart raw)))"
    using q(2) by (metis rev_rev_ident)
  then have "trimStart raw = js_trim raw @ concat ?post"
    by (simp add: js_trim_def trimEnd_def rev_concat)
  moreover have "set ?post \<subseteq> set white_space" using q(1) by force
  ultimately show ?thesis using pre by (metis append.assoc)
qed

lemma js_trim_fixed:
  assumes "w \<in> set white_space"
  shows "\<not> prefix w (js_trim raw)" and "\<not> suffix w (js_trim raw)"
proof -
  have ne: "w \<noteq> []" using assms by (rule white_space_nonempty)
  obtain q where q: "rev (trimStart raw) = concat q @ rev (js_trim raw)"
    using strip_decomp [of "map rev white_space" "rev (trimStart raw)"]
    by (auto simp: js_trim_def trimEnd_def)
  then have "trimStart raw = js_trim raw @ rev (concat q)"
    by (metis rev_append rev_rev_ident)
  then have "prefix (js_trim raw) (trimStart raw)" by (metis prefixI)
  moreover have "\<not> prefix w (trimStart raw)"
    unfolding trimStart_def using assms ne by (rule strip_fixed)
  ultimately show "\<not> prefix w (js_trim raw)" using prefix_order.trans by blast
  have "rev w \<in> set (map rev white_space)" "rev w \<noteq> []" using assms ne by auto
  then have "\<not> prefix (rev w) (strip (map rev white_space) (rev (trimStart raw)))"
    by (rule strip_fixed)
  then show "\<not> suffix w (js_trim raw)"
    by (simp add: js_trim_def trimEnd_def suffix_to_prefix)
qed

lemma js_trim_empty_iff:
  "js_trim raw = [] \<longleftrightarrow> (\<exists>ws. set ws \<subseteq> set white_space \<and> raw = concat ws)"
proof
  assume "js_trim raw = []"
  with js_trim_decomp [of raw] obtain pre post where
    "set pre \<subseteq> set white_space" "set post \<subseteq> set white_space" "raw = concat (pre @ post)"
    by auto
  then have "set (pre @ post) \<subseteq> set white_space \<and> raw = concat (pre @ post)" by simp
  then show "\<exists>ws. set ws \<subseteq> set white_space \<and> raw = concat ws" by blast
next
  assume "\<exists>ws. set ws \<subseteq> set white_space \<and> raw = concat ws"
  then obtain ws where ws: "set ws \<subseteq> set white_space" "raw = concat ws" by blast
  have "strip white_space (concat ws @ []) = strip white_space []"
    using ws(1) by (intro strip_concat white_space_prefix_free white_space_nonempty)
  then have "trimStart raw = []" by (simp add: trimStart_def ws(2) strip_no_match)
  then show "js_trim raw = []" by (simp add: js_trim_def trimEnd_def strip_no_match)
qed

lemma js_trim_hi: "js_trim ''hi'' = ''hi''"
  by (simp add: js_trim_def trimStart_def trimEnd_def strip.simps white_space_def)

section \<open>Arrays, strings and validation\<close>

lemma length_mapi: "length (mapi f xs) = length xs"
  by (simp add: mapi_def)

lemma nth_mapi: "i < length xs \<Longrightarrow> mapi f xs ! i = f (xs ! i) i"
  by (simp add: mapi_def nth_enumerate_eq)

lemma js_slice_prefix: "0 \<le> n \<Longrightarrow> js_slice xs 0 n = take (nat n) xs"
  by (auto simp add: js_slice_def Let_def min_def)

lemma js_slice_all: "js_slice xs 0 (int (length xs)) = xs"
  by (simp add: js_slice_prefix)

lemma sublist_join: "x \<in> set xs \<Longrightarrow> sublist x (join sep xs)"
proof (induction sep xs rule: join.induct)
  case (1 sep)
  then show ?case by simp
next
  case (2 sep y)
  then show ?case by simp
next
  case (3 sep y z zs)
  show ?case
  proof (cases "x = y")
    case True
    then show ?thesis by (simp add: sublist_append_rightI)
  next
    case False
    with 3 have "sublist x (join sep (z # zs))" by simp
    then obtain ps ss where "join sep (z # zs) = ps @ x @ ss"
      by (auto simp: sublist_def)
    then have "join sep (y # z # zs) = (y @ sep @ ps) @ x @ ss" by simp
    then show ?thesis unfolding sublist_def by blast
  qed
qed

lemma digit_value_digit: "d < 10 \<Longrightarrow> digit_value (''0123456789'' ! d) = d"
proof -
  assume "d < 10"
  then have "d = 0 \<or> d = 1 \<or> d = 2 \<or> d = 3 \<or> d = 4 \<or> d = 5 \<or> d = 6 \<or> d = 7 \<or>
    d = 8 \<or> d = 9"
    by arith
  then show ?thesis by (elim disjE) (simp_all add: digit_value_def)
qed

lemma undec_dec: "undec (dec n) = n"
proof (induction n rule: dec.induct)
  case (1 n)
  show ?case
  proof (cases "n < 10")
    case True
    then show ?thesis by (simp add: dec.simps [of n] undec_def digit_value_digit)
  next
    case False
    with "1.IH" have "undec (dec (n div 10)) = n div 10" by simp
    with False show ?thesis
      by (simp add: dec.simps [of n] undec_def digit_value_digit)
  qed
qed

lemma dec_inject: "dec m = dec n \<longleftrightarrow> m = n"
  by (metis undec_dec)

lemma key_inject: "key a = key b \<longleftrightarrow> a = b"
  by (simp add: key_def)

lemma busyFallback_nonempty: "busyFallback query passages \<noteq> []"
  by (simp add: busyFallback_def Let_def)

lemma answer_of_nonempty: "answer_of r query passages \<noteq> []"
  by (simp add: answer_of_def Let_def busyFallback_nonempty split: sum.splits)

lemma validate_None_iff: "validate req = None \<longleftrightarrow> falsy (sessionId req) \<or> falsy (message req)"
  by (auto simp add: validate_def falsy_def split: option.splits)

lemma validate_Some:
  "validate req = Some (s, m) \<longleftrightarrow>
     sessionId req = Some s \<and> message req = Some m \<and> s \<noteq> [] \<and> m \<noteq> []"
  by (auto simp add: validate_def falsy_def split: option.splits)

section \<open>The chat route, path by path\<close>

lemma chat_invalid:
  "validate req = None \<Longrightarrow>
     chat be cd cfg ev (Some req) st =
       (\<lparr>status = 400, body = Error_body ''sessionId & message required''\<rparr>, st)"
  by (simp add: chat_def)

lemma chat_user_append_fails:
  "validate req = Some (sid, msg) \<Longrightarrow>
   pushMsg be cd (clock ev 0) sid ''user'' msg [] st = (Inl e, st1) \<Longrightarrow>
     chat be cd cfg ev (Some req) st = (chat_failed e, st1)"
  by (simp add: chat_def)

lemma chat_search_fails:
  "validate req = Some (sid, msg) \<Longrightarrow>
   pushMsg be cd (clock ev 0) sid ''user'' msg [] st = (Inr u, st1) \<Longrightarrow>
   qdrantSearch cfg ev msg (TOP_K cfg) = Inl e \<Longrightarrow>
     chat be cd cfg ev (Some req) st = (chat_failed e, st1)"
  by (simp add: chat_def)

lemma chat_answered:
  "validate req = Some (sid, msg) \<Longrightarrow>
   pushMsg be cd (clock ev 0) sid ''user'' msg [] st = (Inr u, st1) \<Longrightarrow>
   qdrantSearch cfg ev msg (TOP_K cfg) = Inr passages \<Longrightarrow>
     chat be cd cfg ev (Some req) st =
       (case pushMsg be cd (clock ev 1) sid ''assistant''
               (answer_of (fst (askGemini cfg (gemini ev) (random ev)
                  (buildPrompt msg passages))) msg passages) [] st1 of
          (Inl e, st2) \<Rightarrow> (chat_failed e, st2)
        | (Inr _, st2) \<Rightarrow>
            (\<lparr>status = 200,
              body = Chat_body
                (answer_of (fst (askGemini cfg (gemini ev) (random ev)
                   (buildPrompt msg passages))) msg passages)
                (sources_of passages)\<rparr>, st2))"
  by (simp add: chat_def Let_def)

lemma message_object_plain:
  "message_object role content t [] =
     [(''role'', JStr role), (''content'', JStr content), (''ts'', JNum t)]"
  by (simp add: message_object_def spread_def)

lemma pushMsg_mem:
  "pushMsg mem_backend cd t i role content extra st =
     (Inr (), st(key i \<mapsto> stored_array st (key i) @
        [stringify cd (message_object role content t extra)]))"
  by (simp add: pushMsg_def mem_backend_def mem_rpush_def mem_expire_def Let_def)

lemma chat_mem:
  "validate req = Some (sid, msg) \<Longrightarrow>
   qdrantSearch cfg ev msg (TOP_K cfg) = Inr passages \<Longrightarrow>
     chat mem_backend cd cfg ev (Some req) st =
       (\<lparr>status = 200,
         body = Chat_body
           (answer_of (fst (askGemini cfg (gemini ev) (random ev) (buildPrompt msg passages)))
              msg passages)
           (sources_of passages)\<rparr>,
        st(key sid \<mapsto> stored_array st (key sid) @
          [stringify cd (message_object ''user'' msg (clock ev 0) []),
           stringify cd (message_object ''assistant''
             (answer_of (fst (askGemini cfg (gemini ev) (random ev) (buildPrompt msg passages)))
                msg passages) (clock ev 1) [])]))"
  by (simp add: chat_answered [OF _ pushMsg_mem] pushMsg_mem stored_array_def)

lemma askGemini_all_fail:
  assumes "\<forall>n. \<exists>e. llm prompt n = Inl e"
  shows "\<exists>x. fst (askGemini cfg llm rnd prompt) = Inl x"
  unfolding askGemini_def using assms by (intro loop_all_fail) (simp add: raw_Inl_iff)

lemma fallback_lines:
  "length (mapi fallback_line (js_slice passages 0 5)) = min 5 (length passages)"
  "i < min 5 (length passages) \<Longrightarrow>
     mapi fallback_line (js_slice passages 0 5) ! i =
       bullet @ '' [S'' @ dec (i + 1) @ ''] '' @ tmpl (title (passages ! i))"
  by (simp_all add: length_mapi nth_mapi js_slice_prefix fallback_line_def min.commute)


subsection \<open>The sample inputs\<close>

lemma pushMsg_flaky_ok:
  "pushMsg flaky_backend cd t i role content extra (mem, Suc (Suc n)) =
     (Inr (), (mem(key i \<mapsto> stored_array mem (key i) @
        [stringify cd (message_object role content t extra)]), n))"
  by (simp add: pushMsg_def flaky_backend_def guarded_def mem_rpush_def mem_expire_def Let_def)

lemma pushMsg_flaky_down:
  "pushMsg flaky_backend cd t i role content extra (mem, 0) = (Inl unreachable, (mem, 0))"
  by (simp add: pushMsg_def flaky_backend_def guarded_def Let_def)

lemma pushMsg_flaky_expire_down:
  "pushMsg flaky_backend cd t i role content extra (mem, Suc 0) =
     (Inl unreachable, (mem(key i \<mapsto> stored_array mem (key i) @
        [stringify cd (message_object role content t extra)]), 0))"
  by (simp add: pushMsg_def flaky_backend_def guarded_def mem_rpush_def mem_expire_def Let_def)

lemma validate_req1: "validate req1 = Some (''s'', ''q'')"
  by (simp add: validate_def falsy_def req1_def)


lemma qdrantSearch_env_of: "qdrantSearch cfg_default (env_of l) q k = Inr [p1]"
  by (simp add: qdrantSearch_def cfg_default_def falsy_def env_of_def)

lemma askGemini_answers_hi: "fst (askGemini cfg_default answers_hi rnd_half prompt) = Inr ''hi''"
  by (simp add: askGemini_def loop_step_return [where t = "''hi''"] askGeminiRaw_def
      answers_hi_def cfg_default_def)

lemma askGemini_answers_blank:
  "fst (askGemini cfg_default answers_blank rnd_half prompt) = Inr [CHR 0xC2, CHR 0xA0, CHR 0x20]"
  by (simp add: askGemini_def loop_step_return [where t = "[CHR 0xC2, CHR 0xA0, CHR 0x20]"]
      askGeminiRaw_def answers_blank_def cfg_default_def)

section \<open>Validation\<close>

text \<open>
  When the body was parsed and \<open>sessionId\<close> or \<open>message\<close> is missing from it (or is the
  empty string), the route answers 400 with \<open>{error: "sessionId & message required"}\<close> and
  leaves the store as it was, whatever the backend: no command is sent to it.
\<close>

lemma chat_missing_field_parsed:
  "sessionId req = None \<or> message req = None \<or>
   sessionId req = Some [] \<or> message req = Some [] \<Longrightarrow>
     chat be cd cfg ev (Some req) st =
       (\<lparr>status = 400, body = Error_body ''sessionId & message required''\<rparr>, st)"
  by (rule chat_invalid) (auto simp add: validate_None_iff falsy_def)

text \<open>
  Claim C7 asks for that 400 response whenever \<open>sessionId\<close> or \<open>message\<close> is missing. A
  request whose body was not parsed has both missing, yet the route reads the two
  properties from \<open>req.body\<close> before its guard: the destructuring throws, and the \<open>catch\<close>
  answers 500 with \<open>{error: "chat_failed", detail: ...}\<close>. The store is left as it was.
\<close>

theorem chat_unparsed_body:
  "chat be cd cfg ev None st =
     (\<lparr>status = 500,
       body = Error_detail_body ''chat_failed''
         ''Cannot destructure property 'sessionId' of 'req.body' as it is undefined.''\<rparr>,
      st)"
  by (simp add: chat_def chat_failed_def destructure_error_def)

section \<open>The answer of a 200 response\<close>

lemma answer_of_generated:
  "answer_of (Inr raw) query passages =
     (if js_trim raw = [] then ''I am unsure. None of the provided text answers that.''
      else js_trim raw)"
  by (simp add: answer_of_def Let_def)

lemma answer_of_failed: "answer_of (Inl e) query passages = busyFallback query passages"
  by (simp add: answer_of_def)

lemma chat_200:
  assumes "status (fst (chat be cd cfg ev parsed st)) = 200"
  shows "\<exists>req sid msg passages.
           parsed = Some req \<and> sessionId req = Some sid \<and> message req = Some msg \<and>
           sid \<noteq> [] \<and> msg \<noteq> [] \<and>
           qdrantSearch cfg ev msg (TOP_K cfg) = Inr passages \<and>
           body (fst (chat be cd cfg ev parsed st)) =
             Chat_body
               (answer_of (fst (askGemini cfg (gemini ev) (random ev)
                  (buildPrompt msg passages))) msg passages)
               (sources_of passages)"
proof -
  from assms obtain req where req: "parsed = Some req"
    by (cases parsed) (auto simp: chat_def chat_failed_def)
  from assms req obtain sid msg where v: "validate req = Some (sid, msg)"
    by (cases "validate req") (auto simp: chat_def)
  from assms req v obtain u st1 where
    p: "pushMsg be cd (clock ev 0) sid ''user'' msg [] st = (Inr u, st1)"
    by (cases "pushMsg be cd (clock ev 0) sid ''user'' msg [] st")
      (auto simp: chat_def chat_failed_def split: sum.splits)
  from assms req v p obtain passages where
    q: "qdrantSearch cfg ev msg (TOP_K cfg) = Inr passages"
    by (cases "qdrantSearch cfg ev msg (TOP_K cfg)") (auto simp: chat_def chat_failed_def)
  from assms have "body (fst (chat be cd cfg ev parsed st)) =
             Chat_body
               (answer_of (fst (askGemini cfg (gemini ev) (random ev)
                  (buildPrompt msg passages))) msg passages)
               (sources_of passages)"
    unfolding req chat_answered [OF v p q]
    by (auto simp: chat_failed_def split: prod.splits sum.splits)
  with req v q show ?thesis by (auto simp: validate_Some)
qed

text \<open>
  Claim C9. A chat request that is answered with status 200 carries a non-empty answer,
  next to the sources of the retrieved passages. When the model returned a text made of
  white space only (one that trims to empty), the answer is the canned "I am unsure"
  sentence; when it returned any other text, the answer is that text without the white
  space at its two ends; when generation failed, the answer is the busy fallback, whose
  notice is there even when no passage was retrieved.
\<close>

theorem chat_200_answer_nonempty:
  "status (fst (chat be cd cfg ev parsed st)) = 200 \<longrightarrow>
     (\<exists>req sid msg passages answer.
        parsed = Some req \<and> sessionId req = Some sid \<and> message req = Some msg \<and>
        qdrantSearch cfg ev msg (TOP_K cfg) = Inr passages \<and>
        body (fst (chat be cd cfg ev parsed st)) = Chat_body answer (sources_of passages) \<and>
        answer \<noteq> [] \<and>
        (\<forall>raw. fst (askGemini cfg (gemini ev) (random ev) (buildPrompt msg passages)) = Inr raw
           \<longrightarrow>
           (if \<exists>ws. set ws \<subseteq> set white_space \<and> raw = concat ws
            then answer = ''I am unsure. None of the provided text answers that.''
            else (\<exists>pre post. set pre \<subseteq> set white_space \<and> set post \<subseteq> set white_space \<and>
                    raw = concat pre @ answer @ concat post) \<and>
                 (\<forall>w \<in> set white_space. \<not> prefix w answer \<and> \<not> suffix w answer))) \<and>
        (\<forall>e. fst (askGemini cfg (gemini ev) (random ev) (buildPrompt msg passages)) = Inl e
           \<longrightarrow>
           answer =
             ''The model is busy right now. Here are relevant sources for '' @ ldquo @ msg @
             rdquo @ '':'' @ nl @ nl @ join nl (mapi fallback_line (js_slice passages 0 5))))"
  (is "_ \<longrightarrow> ?goal")
proof
  assume "status (fst (chat be cd cfg ev parsed st)) = 200"
  from chat_200 [OF this] obtain req sid msg passages where
    r: "parsed = Some req" "sessionId req = Some sid" "message req = Some msg"
      "qdrantSearch cfg ev msg (TOP_K cfg) = Inr passages"
      "body (fst (chat be cd cfg ev parsed st)) =
         Chat_body
           (answer_of (fst (askGemini cfg (gemini ev) (random ev)
              (buildPrompt msg passages))) msg passages)
           (sources_of passages)"
    by blast
  let ?res = "fst (askGemini cfg (gemini ev) (random ev) (buildPrompt msg passages))"
  let ?answer = "answer_of ?res msg passages"
  have gen: "if \<exists>ws. set ws \<subseteq> set white_space \<and> raw = concat ws
            then ?answer = ''I am unsure. None of the provided text answers that.''
            else (\<exists>pre post. set pre \<subseteq> set white_space \<and> set post \<subseteq> set white_space \<and>
                    raw = concat pre @ ?answer @ concat post) \<and>
                 (\<forall>w \<in> set white_space. \<not> prefix w ?answer \<and> \<not> suffix w ?answer)"
    if "?res = Inr raw" for raw
  proof (cases "js_trim raw = []")
    case True
    then show ?thesis
      using that by (simp add: answer_of_generated js_trim_empty_iff [symmetric])
  next
    case False
    then have "?answer = js_trim raw" using that by (simp add: answer_of_generated)
    with False show ?thesis
      using js_trim_decomp [of raw] js_trim_fixed [of _ raw]
      by (simp add: js_trim_empty_iff [symmetric]) 
  qed
  have fail: "?answer =
             ''The model is busy right now. Here are relevant sources for '' @ ldquo @ msg @
             rdquo @ '':'' @ nl @ nl @ join nl (mapi fallback_line (js_slice passages 0 5))"
    if "?res = Inl e" for e
    using that by (simp add: answer_of_failed busyFallback_def Let_def)
  have ne: "?answer \<noteq> []" by (rule answer_of_nonempty)
  show ?goal
    by (intro exI conjI allI impI) (fact r ne | erule gen | erule fail)+
qed

theorem chat_200_answer_nonempty_witness:
  "status (fst (chat mem_backend plain_codec cfg_default (env_of answers_blank) (Some req1)
      Map.empty)) = 200 \<and>
   (\<exists>sources.
      body (fst (chat mem_backend plain_codec cfg_default (env_of answers_blank) (Some req1)
        Map.empty)) =
      Chat_body ''I am unsure. None of the provided text answers that.'' sources)"
proof -
  let ?run = "chat mem_backend plain_codec cfg_default (env_of answers_blank) (Some req1)
      Map.empty"
  have ok: "status (fst ?run) = 200"
    by (simp add: chat_mem [OF validate_req1 qdrantSearch_env_of])
  from chat_200_answer_nonempty [of mem_backend plain_codec cfg_default "env_of answers_blank"
      "Some req1" Map.empty, THEN mp, OF ok]
  obtain req sid msg passages answer where
    r: "Some req1 = Some req" "sessionId req = Some sid" "message req = Some msg"
      "qdrantSearch cfg_default (env_of answers_blank) msg (TOP_K cfg_default) = Inr passages"
      "body (fst ?run) = Chat_body answer (sources_of passages)"
    and gen: "\<forall>raw. fst (askGemini cfg_default (gemini (env_of answers_blank))
             (random (env_of answers_blank)) (buildPrompt msg passages)) = Inr raw \<longrightarrow>
           (if \<exists>ws. set ws \<subseteq> set white_space \<and> raw = concat ws
            then answer = ''I am unsure. None of the provided text answers that.''
            else (\<exists>pre post. set pre \<subseteq> set white_space \<and> set post \<subseteq> set white_space \<and>
                    raw = concat pre @ answer @ concat post) \<and>
                 (\<forall>w \<in> set white_space. \<not> prefix w answer \<and> \<not> suffix w answer))"
    by (elim exE conjE) (rule that)
  have raw: "fst (askGemini cfg_default (gemini (env_of answers_blank))
             (random (env_of answers_blank)) (buildPrompt msg passages)) =
           Inr [CHR 0xC2, CHR 0xA0, CHR 0x20]"
    by (simp add: env_of_def askGemini_answers_blank)
  have "set ([CHR 0xC2, CHR 0xA0] # [CHR 0x20] # []) \<subseteq> set white_space \<and>
        [CHR 0xC2, CHR 0xA0, CHR 0x20] = concat ([CHR 0xC2, CHR 0xA0] # [CHR 0x20] # [])"
    by (simp add: white_space_def)
  then have "\<exists>ws. set ws \<subseteq> set white_space \<and> [CHR 0xC2, CHR 0xA0, CHR 0x20] = concat ws"
    by blast
  with gen raw have "answer = ''I am unsure. None of the provided text answers that.''"
    by simp
  with ok r(5) show ?thesis by blast
qed

section \<open>Citation numbers\<close>

text \<open>
  Claim C6. The sources of a chat response are built from the retrieved passages, one per
  passage and in their order: \<open>sources[i]\<close> has the id \<open>i + 1\<close> and the title and URL of
  passage \<open>i\<close>. The prompt sent to the model is built from the same passages: it holds one
  context block per passage, and block \<open>i\<close> is \<open># Source\<close>, that same number \<open>i + 1\<close>, and
  the title, chunk and URL of passage \<open>i\<close>; the prompt ends with the instruction to cite
  the numbered sources. Different passages get different numerals. So passage \<open>i\<close> is
  number \<open>i + 1\<close> in both the prompt and the response.
\<close>

theorem citation_numbering:
  "length (sources_of passages) = length passages \<and>
   length (mapi context_block passages) = length passages \<and>
   (\<forall>i<length passages.
      sources_of passages ! i =
        \<lparr>source_id = i + 1, source_title = title (passages ! i),
         source_url = url (passages ! i)\<rparr> \<and>
      mapi context_block passages ! i =
        ''# Source '' @ dec (source_id (sources_of passages ! i)) @ '' ('' @
        tmpl (title (passages ! i)) @ '')'' @ nl @ tmpl (chunk (passages ! i)) @ nl @
        ''URL: '' @ tmpl (url (passages ! i)) \<and>
      sublist (mapi context_block passages ! i) (buildPrompt query passages)) \<and>
   buildPrompt query passages =
     ''You are a news assistant. Use ONLY the context below. If the answer is unknown, say you are unsure.''
     @ nl @ nl @ ''## Context'' @ nl @ join (nl @ nl) (mapi context_block passages) @
     nl @ nl @ ''## Task'' @ nl @ ''Question: '' @ query @ nl @
     ''Answer clearly with citations like [S1], [S2] referring to the numbered sources.'' \<and>
   (\<forall>i j. dec (i + 1) = dec (j + 1) \<longrightarrow> i = j) \<and>
   (status (fst (chat be cd cfg ev parsed st)) = 200 \<longrightarrow>
      (\<exists>req msg retrieved.
         parsed = Some req \<and> message req = Some msg \<and>
         qdrantSearch cfg ev msg (TOP_K cfg) = Inr retrieved \<and>
         body (fst (chat be cd cfg ev parsed st)) =
           Chat_body
             (answer_of (fst (askGemini cfg (gemini ev) (random ev)
                (buildPrompt msg retrieved))) msg retrieved)
             (sources_of retrieved)))"
proof -
  have blocks: "sublist (mapi context_block passages ! i) (buildPrompt query passages)"
    if "i < length passages" for i
  proof -
    let ?blocks = "mapi context_block passages"
    have "?blocks ! i \<in> set ?blocks" using that by (simp add: length_mapi)
    then have "sublist (?blocks ! i) (join (nl @ nl) ?blocks)" by (rule sublist_join)
    then obtain ps ss where "join (nl @ nl) ?blocks = ps @ ?blocks ! i @ ss"
      by (auto simp: sublist_def)
    then show ?thesis
      unfolding buildPrompt_def Let_def sublist_def
      by (metis append.assoc)
  qed
  have numbers: "length (sources_of passages) = length passages \<and>
    length (mapi context_block passages) = length passages \<and>
    (\<forall>i<length passages.
      sources_of passages ! i =
        \<lparr>source_id = i + 1, source_title = title (passages ! i),
         source_url = url (passages ! i)\<rparr> \<and>
      mapi context_block passages ! i =
        ''# Source '' @ dec (source_id (sources_of passages ! i)) @ '' ('' @
        tmpl (title (passages ! i)) @ '')'' @ nl @ tmpl (chunk (passages ! i)) @ nl @
        ''URL: '' @ tmpl (url (passages ! i)) \<and>
      sublist (mapi context_block passages ! i) (buildPrompt query passages))"
    using blocks by (simp add: length_mapi nth_mapi sources_of_def context_block_def)
  have prompt: "buildPrompt query passages =
     ''You are a news assistant. Use ONLY the context below. If the answer is unknown, say you are unsure.''
     @ nl @ nl @ ''## Context'' @ nl @ join (nl @ nl) (mapi context_block passages) @
     nl @ nl @ ''## Task'' @ nl @ ''Question: '' @ query @ nl @
     ''Answer clearly with citations like [S1], [S2] referring to the numbered sources.''"
    by (simp add: buildPrompt_def Let_def)
  have distinct: "\<forall>i j. dec (i + 1) = dec (j + 1) \<longrightarrow> i = j"
    by (simp add: dec_inject)
  have route: "status (fst (chat be cd cfg ev parsed st)) = 200 \<longrightarrow>
      (\<exists>req msg retrieved.
         parsed = Some req \<and> message req = Some msg \<and>
         qdrantSearch cfg ev msg (TOP_K cfg) = Inr retrieved \<and>
         body (fst (chat be cd cfg ev parsed st)) =
           Chat_body
             (answer_of (fst (askGemini cfg (gemini ev) (random ev)
                (buildPrompt msg retrieved))) msg retrieved)
             (sources_of retrieved))"
  proof
    assume "status (fst (chat be cd cfg ev parsed st)) = 200"
    from chat_200 [OF this] obtain req sid msg retrieved where
      "parsed = Some req" "message req = Some msg"
      "qdrantSearch cfg ev msg (TOP_K cfg) = Inr retrieved"
      "body (fst (chat be cd cfg ev parsed st)) =
           Chat_body
             (answer_of (fst (askGemini cfg (gemini ev) (random ev)
                (buildPrompt msg retrieved))) msg retrieved)
             (sources_of retrieved)"
      by (elim exE conjE) (rule that)
    then show "\<exists>req msg retrieved.
         parsed = Some req \<and> message req = Some msg \<and>
         qdrantSearch cfg ev msg (TOP_K cfg) = Inr retrieved \<and>
         body (fst (chat be cd cfg ev parsed st)) =
           Chat_body
             (answer_of (fst (askGemini cfg (gemini ev) (random ev)
                (buildPrompt msg retrieved))) msg retrieved)
             (sources_of retrieved)"
      by (intro exI conjI)
  qed
  from numbers prompt distinct route show ?thesis by (intro conjI) (elim conjE, assumption)+
qed

theorem citation_numbering_witness:
  "(1::nat) < length [p1, p2] \<and>
   sources_of [p1, p2] ! 1 =
     \<lparr>source_id = 2, source_title = Some ''T2'', source_url = Some ''http://b''\<rparr> \<and>
   mapi context_block [p1, p2] ! 1 =
     ''# Source '' @ dec 2 @ '' (T2)'' @ nl @ ''undefined'' @ nl @ ''URL: http://b'' \<and>
   status (fst (chat mem_backend plain_codec cfg_default (env_of answers_hi) (Some req1)
     Map.empty)) = 200 \<and>
   (\<exists>answer. body (fst (chat mem_backend plain_codec cfg_default (env_of answers_hi)
      (Some req1) Map.empty)) = Chat_body answer (sources_of [p1]))"
proof -
  note inst = citation_numbering [of "[p1, p2]" "''q''" mem_backend plain_codec cfg_default
      "env_of answers_hi" "Some req1" Map.empty]
  have one: "(1::nat) < length [p1, p2]" by simp
  from inst [THEN conjunct2, THEN conjunct2, THEN conjunct1, rule_format, OF one]
  have at1: "sources_of [p1, p2] ! 1 =
        \<lparr>source_id = 1 + 1, source_title = title ([p1, p2] ! 1),
         source_url = url ([p1, p2] ! 1)\<rparr>"
    "mapi context_block [p1, p2] ! 1 =
        ''# Source '' @ dec (source_id (sources_of [p1, p2] ! 1)) @ '' ('' @
        tmpl (title ([p1, p2] ! 1)) @ '')'' @ nl @ tmpl (chunk ([p1, p2] ! 1)) @ nl @
        ''URL: '' @ tmpl (url ([p1, p2] ! 1))"
    by blast+
  have src: "sources_of [p1, p2] ! 1 =
     \<lparr>source_id = 2, source_title = Some ''T2'', source_url = Some ''http://b''\<rparr>"
    using at1(1) by (simp add: p2_def)
  have blk: "mapi context_block [p1, p2] ! 1 =
     ''# Source '' @ dec 2 @ '' (T2)'' @ nl @ ''undefined'' @ nl @ ''URL: http://b''"
    unfolding at1(2) src by (simp add: p2_def tmpl_def)
  have ok: "status (fst (chat mem_backend plain_codec cfg_default (env_of answers_hi)
      (Some req1) Map.empty)) = 200"
    by (simp add: chat_mem [OF validate_req1 qdrantSearch_env_of])
  from inst [THEN conjunct2, THEN conjunct2, THEN conjunct2, THEN conjunct2, THEN conjunct2,
      THEN mp, OF ok]
  obtain req msg retrieved where r: "Some req1 = Some req" "message req = Some msg"
    "qdrantSearch cfg_default (env_of answers_hi) msg (TOP_K cfg_default) = Inr retrieved"
    "body (fst (chat mem_backend plain_codec cfg_default (env_of answers_hi) (Some req1)
        Map.empty)) =
       Chat_body
         (answer_of (fst (askGemini cfg_default (gemini (env_of answers_hi))
            (random (env_of answers_hi)) (buildPrompt msg retrieved))) msg retrieved)
         (sources_of retrieved)"
    by (elim exE conjE) (rule that)
  from r(3) have "retrieved = [p1]" by (simp add: qdrantSearch_env_of)
  with r(4) have "\<exists>answer. body (fst (chat mem_backend plain_codec cfg_default
      (env_of answers_hi) (Some req1) Map.empty)) = Chat_body answer (sources_of [p1])"
    by simp
  with one src blk ok show ?thesis by simp
qed

section \<open>A failing append of the assistant turn\<close>

text \<open>
  Claim C1, as stated, fails: the second \<open>pushMsg\<close> sits inside the route's \<open>try\<close>, so
  an error it throws reaches the \<open>catch\<close>. The model has answered \<open>hi\<close>; the store
  accepts the two commands of the user turn and rejects the next one; the response is
  500, not 200.
\<close>

theorem chat_500_when_assistant_append_fails:
  "fst (askGemini cfg_default (gemini (env_of answers_hi)) (random (env_of answers_hi))
          (buildPrompt ''q'' [p1])) = Inr ''hi'' \<and>
   fst (chat flaky_backend plain_codec cfg_default (env_of answers_hi) (Some req1) (Map.empty, 2)) =
     \<lparr>status = 500, body = Error_detail_body ''chat_failed'' ''connect ECONNREFUSED''\<rparr>"
proof -
  have two: "(2::nat) = Suc (Suc 0)" by simp
  have ask: "fst (askGemini cfg_default (gemini (env_of answers_hi)) (random (env_of answers_hi))
          (buildPrompt ''q'' [p1])) = Inr ''hi''"
    by (simp add: env_of_def askGemini_answers_hi)
  have "fst (chat flaky_backend plain_codec cfg_default (env_of answers_hi) (Some req1) (Map.empty, 2)) =
     chat_failed unreachable"
    unfolding two
    by (simp add: chat_answered [OF validate_req1 pushMsg_flaky_ok qdrantSearch_env_of]
        pushMsg_flaky_down)
  with ask show ?thesis by (simp add: chat_failed_def unreachable_def)
qed

text \<open>
  Claim C1, amended. When a chat request has produced its answer (generated or fallback)
  and appending the assistant turn to the store fails with an error \<open>e\<close>, the chat route
  answers 500 with \<open>{error: "chat_failed", detail: e.message}\<close>; the 200 response with the
  answer is not sent.
\<close>

theorem chat_assistant_append_fails:
  assumes "validate req = Some (sid, msg)"
    and "pushMsg be cd (clock ev 0) sid ''user'' msg [] st = (Inr u, st1)"
    and "qdrantSearch cfg ev msg (TOP_K cfg) = Inr passages"
    and "pushMsg be cd (clock ev 1) sid ''assistant''
           (answer_of (fst (askGemini cfg (gemini ev) (random ev) (buildPrompt msg passages)))
              msg passages) [] st1 = (Inl e, st2)"
  shows "chat be cd cfg ev (Some req) st =
           (\<lparr>status = 500, body = Error_detail_body ''chat_failed'' (err_message e)\<rparr>, st2)"
  using assms by (simp add: chat_answered [OF assms(1-3)] chat_failed_def)

theorem chat_assistant_append_fails_witness:
  "fst (chat flaky_backend plain_codec cfg_default (env_of answers_hi) (Some req1) (Map.empty, 3)) =
     \<lparr>status = 500, body = Error_detail_body ''chat_failed'' ''connect ECONNREFUSED''\<rparr>"
proof -
  have three: "(3::nat) = Suc (Suc (Suc 0))" by simp
  have h2: "pushMsg flaky_backend plain_codec (clock (env_of answers_hi) 0) ''s'' ''user'' ''q'' []
      (Map.empty, 3) =
     (Inr (), (Map.empty(key ''s'' \<mapsto> stored_array Map.empty (key ''s'') @
        [stringify plain_codec (message_object ''user'' ''q'' (clock (env_of answers_hi) 0) [])]),
        Suc 0))"
    unfolding three by (rule pushMsg_flaky_ok)
  show ?thesis
    using chat_assistant_append_fails [OF validate_req1 h2 qdrantSearch_env_of
        pushMsg_flaky_expire_down]
    by (simp add: unreachable_def)
qed

section \<open>Degrading to the fallback answer\<close>

text \<open>
  Claim C5, as stated, fails for the same reason: with one passage retrieved and every
  generation attempt failing, the fallback answer is built, but the response is 500 when
  the store rejects the write of the assistant turn, be it the \<open>rpush\<close> (the store takes
  2 commands) or the \<open>expire\<close> after it (the store takes 3).
\<close>

theorem chat_500_despite_fallback:
  "[p1] \<noteq> [] \<and> (\<forall>n. always_429 (buildPrompt ''q'' [p1]) n = Inl err_429) \<and>
   qdrantSearch cfg_default (env_of always_429) ''q'' (TOP_K cfg_default) = Inr [p1] \<and>
   fst (chat flaky_backend plain_codec cfg_default (env_of always_429) (Some req1)
          (Map.empty, 2)) =
     \<lparr>status = 500, body = Error_detail_body ''chat_failed'' ''connect ECONNREFUSED''\<rparr> \<and>
   fst (chat flaky_backend plain_codec cfg_default (env_of always_429) (Some req1)
          (Map.empty, 3)) =
     \<lparr>status = 500, body = Error_detail_body ''chat_failed'' ''connect ECONNREFUSED''\<rparr>"
proof -
  have two: "(2::nat) = Suc (Suc 0)" and three: "(3::nat) = Suc (Suc (Suc 0))" by simp_all
  have "fst (chat flaky_backend plain_codec cfg_default (env_of always_429) (Some req1)
          (Map.empty, 2)) = chat_failed unreachable"
    unfolding two
    by (simp add: chat_answered [OF validate_req1 pushMsg_flaky_ok qdrantSearch_env_of]
        pushMsg_flaky_down)
  moreover have "fst (chat flaky_backend plain_codec cfg_default (env_of always_429) (Some req1)
          (Map.empty, 3)) = chat_failed unreachable"
    unfolding three
    by (simp add: chat_answered [OF validate_req1 pushMsg_flaky_ok qdrantSearch_env_of]
        pushMsg_flaky_expire_down)
  ultimately show ?thesis
    by (simp add: chat_failed_def unreachable_def always_429_def qdrantSearch_env_of)
qed

text \<open>
  Claim C5, amended. For a chat request whose retrieval returned at least one passage, if
  every generation attempt fails and the \<open>pushMsg\<close> call for the assistant turn succeeds,
  that is, the store accepts both of its commands (the \<open>rpush\<close> that appends the turn and
  the \<open>expire\<close> that refreshes the TTL), the response is 200 with the fallback answer and
  the sources. The answer is not empty: it is the busy notice followed by at most 5 lines, one for each of the
  first 5 passages, line \<open>i\<close> (from 0) being a bullet, the tag \<open>[S<i+1>]\<close> and the title of
  passage \<open>i\<close>. So it contains every listed title, the first passage's among them.
\<close>

theorem chat_degrades_to_fallback:
  assumes "validate req = Some (sid, msg)"
    and "pushMsg be cd (clock ev 0) sid ''user'' msg [] st = (Inr u, st1)"
    and "qdrantSearch cfg ev msg (TOP_K cfg) = Inr passages"
    and "passages \<noteq> []"
    and "\<forall>n. \<exists>e. gemini ev (buildPrompt msg passages) n = Inl e"
    and "pushMsg be cd (clock ev 1) sid ''assistant'' (busyFallback msg passages) [] st1 =
           (Inr u', st2)"
  shows "chat be cd cfg ev (Some req) st =
           (\<lparr>status = 200,
             body = Chat_body (busyFallback msg passages) (sources_of passages)\<rparr>, st2) \<and>
         busyFallback msg passages \<noteq> [] \<and>
         busyFallback msg passages =
           ''The model is busy right now. Here are relevant sources for '' @ ldquo @ msg @
           rdquo @ '':'' @ nl @ nl @ join nl (mapi fallback_line (js_slice passages 0 5)) \<and>
         length (mapi fallback_line (js_slice passages 0 5)) = min 5 (length passages) \<and>
         (\<forall>i<min 5 (length passages).
            mapi fallback_line (js_slice passages 0 5) ! i =
              bullet @ '' [S'' @ dec (i + 1) @ ''] '' @ tmpl (title (passages ! i)) \<and>
            sublist (tmpl (title (passages ! i))) (busyFallback msg passages)) \<and>
         sublist (tmpl (title (hd passages))) (busyFallback msg passages)"
proof -
  let ?lines = "mapi fallback_line (js_slice passages 0 5)"
  from assms(5) obtain x where
    "fst (askGemini cfg (gemini ev) (random ev) (buildPrompt msg passages)) = Inl x"
    using askGemini_all_fail by blast
  then have ans: "answer_of (fst (askGemini cfg (gemini ev) (random ev)
      (buildPrompt msg passages))) msg passages = busyFallback msg passages"
    by (simp add: answer_of_def)
  have run: "chat be cd cfg ev (Some req) st =
           (\<lparr>status = 200,
             body = Chat_body (busyFallback msg passages) (sources_of passages)\<rparr>, st2)"
    using assms(6) by (simp add: chat_answered [OF assms(1-3)] ans)
  have shape: "busyFallback msg passages =
           ''The model is busy right now. Here are relevant sources for '' @ ldquo @ msg @
           rdquo @ '':'' @ nl @ nl @ join nl ?lines"
    by (simp add: busyFallback_def Let_def)
  have titles: "sublist (tmpl (title (passages ! i))) (busyFallback msg passages)"
    if "i < min 5 (length passages)" for i
  proof -
    have "?lines ! i \<in> set ?lines" using that by (simp add: fallback_lines(1))
    then have "sublist (?lines ! i) (join nl ?lines)" by (rule sublist_join)
    then obtain ps ss where "join nl ?lines = ps @ ?lines ! i @ ss"
      by (auto simp: sublist_def)
    then have "busyFallback msg passages =
       (''The model is busy right now. Here are relevant sources for '' @ ldquo @ msg @
           rdquo @ '':'' @ nl @ nl @ ps @ bullet @ '' [S'' @ dec (i + 1) @ ''] '') @
       tmpl (title (passages ! i)) @ ss"
      by (simp add: shape fallback_lines(2) [OF that])
    then show ?thesis unfolding sublist_def by blast
  qed
  have "0 < min 5 (length passages)" using assms(4) by simp
  from titles [OF this] have first: "sublist (tmpl (title (hd passages))) (busyFallback msg passages)"
    using assms(4) by (simp add: hd_conv_nth)
  from run shape titles first show ?thesis
    by (simp add: busyFallback_nonempty fallback_lines)
qed

theorem chat_degrades_to_fallback_witness:
  "status (fst (chat mem_backend plain_codec cfg_default (env_of always_429) (Some req1) Map.empty)) = 200
   \<and> sublist ''T1'' (busyFallback ''q'' [p1])"
proof -
  have h2: "pushMsg mem_backend plain_codec (clock (env_of always_429) 0) ''s'' ''user'' ''q'' []
      Map.empty =
     (Inr (), Map.empty(key ''s'' \<mapsto> stored_array Map.empty (key ''s'') @
        [stringify plain_codec (message_object ''user'' ''q'' (clock (env_of always_429) 0) [])]))"
    by (rule pushMsg_mem)
  have h4: "[p1] \<noteq> []" by simp
  have h5: "\<forall>n. \<exists>e. gemini (env_of always_429) (buildPrompt ''q'' [p1]) n = Inl e"
    by (simp add: env_of_def always_429_def)
  note run = chat_degrades_to_fallback [OF validate_req1 h2 qdrantSearch_env_of h4 h5 pushMsg_mem]
  have ok: "status (fst (chat mem_backend plain_codec cfg_default (env_of always_429) (Some req1)
      Map.empty)) = 200"
    using run [THEN conjunct1] by simp
  have "sublist (tmpl (title (hd [p1]))) (busyFallback ''q'' [p1])"
    using run [THEN conjunct2, THEN conjunct2, THEN conjunct2, THEN conjunct2, THEN conjunct2] .
  then have "sublist ''T1'' (busyFallback ''q'' [p1])"
    by (simp add: p1_def tmpl_def)
  with ok show ?thesis by simp
qed

section \<open>What the assistant message holds\<close>

text \<open>
  Claim C2, as stated, fails: the route calls \<open>pushMsg(sessionId, 'assistant', answer)\<close>
  without the \<open>extra\<close> argument, so the stored message has the properties \<open>role\<close>,
  \<open>content\<close> and \<open>ts\<close> only. Here the response lists one source and the stored assistant
  message lists none.
\<close>

theorem chat_stores_no_sources:
  "fst (chat mem_backend plain_codec cfg_default (env_of answers_hi) (Some req1) Map.empty) =
     \<lparr>status = 200,
      body = Chat_body ''hi''
        [\<lparr>source_id = 1, source_title = Some ''T1'', source_url = Some ''http://a''\<rparr>]\<rparr> \<and>
   snd (chat mem_backend plain_codec cfg_default (env_of answers_hi) (Some req1) Map.empty)
       (key ''s'') =
     Some [[(''role'', JStr ''user''), (''content'', JStr ''q''), (''ts'', JNum 1000)],
           [(''role'', JStr ''assistant''), (''content'', JStr ''hi''), (''ts'', JNum 1001)]]"
  unfolding chat_mem [OF validate_req1 qdrantSearch_env_of]
  by (simp add: env_of_def askGemini_answers_hi
      answer_of_def js_trim_hi plain_codec_def stored_array_def message_object_plain
      sources_of_def mapi_def enumerate_eq_zip p1_def Let_def)

text \<open>
  Claim C2, amended. Take a chat request that has passed validation, the write of the user
  turn and retrieval, on any store backend. The assistant message that the route then
  hands to the store's \<open>rpush\<close> under the session's key (whether the answer was generated,
  substituted for an empty response, or the fallback) is the serialisation of an object
  with exactly the properties \<open>role\<close> (\<open>assistant\<close>), \<open>content\<close> (the answer) and \<open>ts\<close>; it
  carries no \<open>sources\<close>. The ordered sources derived from the retrieved passages are in
  the 200 response only, which is sent when that \<open>rpush\<close> and the \<open>expire\<close> after it
  succeed; otherwise the response is 500.
\<close>

theorem chat_appends_without_sources:
  assumes "validate req = Some (sid, msg)"
    and "pushMsg be cd (clock ev 0) sid ''user'' msg [] st = (Inr u, st1)"
    and "qdrantSearch cfg ev msg (TOP_K cfg) = Inr passages"
  shows "let answer = answer_of (fst (askGemini cfg (gemini ev) (random ev)
                        (buildPrompt msg passages))) msg passages;
             assistant_turn = [(''role'', JStr ''assistant''), (''content'', JStr answer),
                               (''ts'', JNum (clock ev 1))]
         in chat be cd cfg ev (Some req) st =
              (case rpush be (key sid) (stringify cd assistant_turn) st1 of
                 (Inl e, st2) \<Rightarrow>
                   (\<lparr>status = 500,
                     body = Error_detail_body ''chat_failed'' (err_message e)\<rparr>, st2)
               | (Inr n, st2) \<Rightarrow>
                   (case expire be (key sid) TTL_SECONDS st2 of
                      (Inl e, st3) \<Rightarrow>
                        (\<lparr>status = 500,
                          body = Error_detail_body ''chat_failed'' (err_message e)\<rparr>, st3)
                    | (Inr ok, st3) \<Rightarrow>
                        (\<lparr>status = 200, body = Chat_body answer (sources_of passages)\<rparr>,
                         st3))) \<and>
            map fst assistant_turn = [''role'', ''content'', ''ts''] \<and>
            map_of assistant_turn ''sources'' = None"
  by (simp add: Let_def chat_answered [OF assms] pushMsg_def message_object_plain
      chat_failed_def split: prod.splits sum.splits)

theorem chat_appends_without_sources_witness:
  "snd (chat mem_backend plain_codec cfg_default (env_of answers_hi) (Some req1) Map.empty) =
     [key ''s'' \<mapsto>
        [[(''role'', JStr ''user''), (''content'', JStr ''q''), (''ts'', JNum 1000)],
         [(''role'', JStr ''assistant''), (''content'', JStr ''hi''), (''ts'', JNum 1001)]]]"
proof -
  have h2: "pushMsg mem_backend plain_codec (clock (env_of answers_hi) 0) ''s'' ''user'' ''q'' []
      Map.empty =
     (Inr (), Map.empty(key ''s'' \<mapsto> stored_array Map.empty (key ''s'') @
        [stringify plain_codec (message_object ''user'' ''q'' (clock (env_of answers_hi) 0) [])]))"
    by (rule pushMsg_mem)
  show ?thesis
    using chat_appends_without_sources [OF validate_req1 h2 qdrantSearch_env_of]
    by (simp add: Let_def env_of_def askGemini_answers_hi answer_of_def js_trim_hi
        plain_codec_def stored_array_def message_object_plain mem_backend_def mem_rpush_def
        mem_expire_def)
qed

section \<open>Writing and reading a session's log\<close>

lemma parse_items_append:
  "parse_items cd xs = Inr a \<Longrightarrow> parse_items cd ys = Inr b \<Longrightarrow>
     parse_items cd (xs @ ys) = Inr (a @ b)"
  by (induction xs arbitrary: a) (auto split: sum.splits)

lemma parse_items_roundtrip:
  "\<forall>m \<in> set ms. parse cd (stringify cd m) = Inr m \<Longrightarrow>
     parse_items cd (map Text (map (stringify cd) ms)) = Inr ms"
  by (induction ms) auto

lemma getHistory_mem:
  "getHistory mem_backend cd i st = (parse_items cd (map Text (stored_array st (key i))), st)"
  by (simp add: getHistory_def mem_backend_def mem_lrange_def Let_def js_slice_all)

lemma stored_array_push:
  "stored_array (snd (pushMsg mem_backend cd t i role content extra st)) k =
     (if k = key i
      then stored_array st k @ [stringify cd (message_object role content t extra)]
      else stored_array st k)"
  by (simp add: pushMsg_mem stored_array_def)

lemma stored_array_push_all:
  "stored_array (push_all cd ps st) (key i) =
     stored_array st (key i) @
     map (stringify cd) (map written (filter (\<lambda>p. push_id p = i) ps))"
proof (induction ps arbitrary: st)
  case Nil
  then show ?case by (simp add: push_all_def)
next
  case (Cons p ps)
  obtain j role content t where p: "p = Push j role content t" by (cases p) auto
  have step: "push_all cd (p # ps) st =
      push_all cd ps (snd (pushMsg mem_backend cd t j role content [] st))"
    by (simp add: push_all_def p)
  show ?case
    unfolding step Cons.IH
    by (simp add: p stored_array_push key_inject message_object_plain)
qed

text \<open>
  Claim C8. On the in-memory store, after any sequence of \<open>pushMsg\<close> calls (to this and
  to other sessions) \<open>getHistory\<close> of a session returns what the log held before followed
  by the messages pushed to that session, in the order of the calls, each with the role
  and the content it was pushed with. \<open>JSON.parse\<close> is taken to undo \<open>JSON.stringify\<close>.
\<close>

theorem history_roundtrip:
  assumes codec: "\<forall>m. parse cd (stringify cd m) = Inr m"
    and before: "parse_items cd (map Text (stored_array st (key i))) = Inr ms0"
  shows "getHistory mem_backend cd i (push_all cd ps st) =
           (Inr (ms0 @ map written (filter (\<lambda>p. push_id p = i) ps)), push_all cd ps st)"
proof -
  let ?new = "map written (filter (\<lambda>p. push_id p = i) ps)"
  have "parse_items cd (map Text (map (stringify cd) ?new)) = Inr ?new"
    using codec by (intro parse_items_roundtrip) simp
  with before have "parse_items cd (map Text (stored_array st (key i)) @
      map Text (map (stringify cd) ?new)) = Inr (ms0 @ ?new)"
    by (rule parse_items_append)
  then show ?thesis
    by (simp add: getHistory_mem stored_array_push_all)
qed

theorem history_roundtrip_witness:
  "fst (getHistory mem_backend plain_codec ''s''
     (push_all plain_codec
        [Push ''s'' ''user'' ''q'' 1, Push ''t'' ''user'' ''x'' 2, Push ''s'' ''assistant'' ''a'' 3]
        Map.empty)) =
   Inr [[(''role'', JStr ''user''), (''content'', JStr ''q''), (''ts'', JNum 1)],
        [(''role'', JStr ''assistant''), (''content'', JStr ''a''), (''ts'', JNum 3)]]"
proof -
  have h1: "\<forall>m. parse plain_codec (stringify plain_codec m) = Inr m"
    by (simp add: plain_codec_def)
  have h2: "parse_items plain_codec (map Text (stored_array Map.empty (key ''s''))) = Inr []"
    by (simp add: stored_array_def)
  show ?thesis
    using history_roundtrip [OF h1 h2,
        of "[Push ''s'' ''user'' ''q'' 1, Push ''t'' ''user'' ''x'' 2,
             Push ''s'' ''assistant'' ''a'' 3]"]
    by simp
qed

end
